theory Spec2Isabelle
  imports Complex_Main
begin

section \<open>Scalars and vectors of the kernels\<close>

text \<open>
  The kernels of \<^verbatim>\<open>main.py\<close> compute on floating-point scalars. They are modelled as
  real numbers extended by one extra value \<open>NaN\<close>: arithmetic on \<open>Val\<close> is exact (no
  rounding, no overflow), and \<open>NaN\<close> is absorbing, as in IEEE arithmetic. Infinities are
  not modelled. The only division by zero the program can perform is \<open>1 / |u|\<close> inside
  \<open>normalized\<close> for \<open>|u| = 0\<close> (and \<open>0 / 0\<close> for a zero rest length); its result is
  multiplied by the components of \<open>u\<close>, which are all zero then, so IEEE arithmetic
  yields NaN there as well. A comparison with a \<open>NaN\<close> operand is false.
\<close>

datatype fval = Val real | NaN

fun nadd :: "fval \<Rightarrow> fval \<Rightarrow> fval" where
  "nadd (Val a) (Val b) = Val (a + b)"
| "nadd _ _ = NaN"

fun nsub :: "fval \<Rightarrow> fval \<Rightarrow> fval" where
  "nsub (Val a) (Val b) = Val (a - b)"
| "nsub _ _ = NaN"

fun nmul :: "fval \<Rightarrow> fval \<Rightarrow> fval" where
  "nmul (Val a) (Val b) = Val (a * b)"
| "nmul _ _ = NaN"

fun ndiv :: "fval \<Rightarrow> fval \<Rightarrow> fval" where
  "ndiv (Val a) (Val b) = (if b = 0 then NaN else Val (a / b))"
| "ndiv _ _ = NaN"

fun nneg :: "fval \<Rightarrow> fval" where
  "nneg (Val a) = Val (- a)"
| "nneg NaN = NaN"

fun nsqrt :: "fval \<Rightarrow> fval" where
  "nsqrt (Val a) = (if a < 0 then NaN else Val (sqrt a))"
| "nsqrt NaN = NaN"

text \<open>\<open>min(a, b)\<close> of the kernel language, taken as \<open>b if b < a else a\<close> on numbers and
  as \<open>NaN\<close> when an operand is \<open>NaN\<close>.\<close>

fun nmin :: "fval \<Rightarrow> fval \<Rightarrow> fval" where
  "nmin (Val a) (Val b) = Val (if b < a then b else a)"
| "nmin _ _ = NaN"

fun nle :: "fval \<Rightarrow> fval \<Rightarrow> bool" where
  "nle (Val a) (Val b) = (a \<le> b)"
| "nle _ _ = False"

fun nlt :: "fval \<Rightarrow> fval \<Rightarrow> bool" where
  "nlt (Val a) (Val b) = (a < b)"
| "nlt _ _ = False"

type_synonym vec = "fval \<times> fval \<times> fval"
type_synonym rvec = "real \<times> real \<times> real"

text \<open>A vector of Python numbers (\<open>ti.Vector([0, -9.8, 0])\<close>) as a kernel vector.\<close>

fun vval :: "rvec \<Rightarrow> vec" where
  "vval (a, b, c) = (Val a, Val b, Val c)"

fun vadd :: "vec \<Rightarrow> vec \<Rightarrow> vec" where
  "vadd (a1, a2, a3) (b1, b2, b3) = (nadd a1 b1, nadd a2 b2, nadd a3 b3)"

fun vsub :: "vec \<Rightarrow> vec \<Rightarrow> vec" where
  "vsub (a1, a2, a3) (b1, b2, b3) = (nsub a1 b1, nsub a2 b2, nsub a3 b3)"

text \<open>\<open>c * u\<close>, a scalar times a vector.\<close>

fun smulv :: "fval \<Rightarrow> vec \<Rightarrow> vec" where
  "smulv c (a1, a2, a3) = (nmul c a1, nmul c a2, nmul c a3)"

text \<open>\<open>u * c\<close>, a vector times a scalar.\<close>

fun vmuls :: "vec \<Rightarrow> fval \<Rightarrow> vec" where
  "vmuls (a1, a2, a3) c = (nmul a1 c, nmul a2 c, nmul a3 c)"

text \<open>\<open>u.dot(w)\<close>: the sum of the componentwise products.\<close>

fun vdot :: "vec \<Rightarrow> vec \<Rightarrow> fval" where
  "vdot (a1, a2, a3) (b1, b2, b3) = nadd (nadd (nmul a1 b1) (nmul a2 b2)) (nmul a3 b3)"

text \<open>\<open>u.norm()\<close> is \<open>sqrt(u.dot(u))\<close>; \<open>u.normalized()\<close> is \<open>(1 / u.norm()) * u\<close>.\<close>

definition vnorm :: "vec \<Rightarrow> fval" where
  "vnorm u = nsqrt (vdot u u)"

definition normalized :: "vec \<Rightarrow> vec" where
  "normalized u = smulv (ndiv (Val 1) (vnorm u)) u"


text \<open>Grid indices are integer 2-vectors; \<open>i + spring_offset\<close> and \<open>float(i - j).norm()\<close>.\<close>

type_synonym idx = "int \<times> int"

fun iadd :: "idx \<Rightarrow> idx \<Rightarrow> idx" where
  "iadd (a, b) (c, d) = (a + c, b + d)"

fun isub :: "idx \<Rightarrow> idx \<Rightarrow> idx" where
  "isub (a, b) (c, d) = (a - c, b - d)"


fun inorm :: "idx \<Rightarrow> real" where
  "inorm (a, b) = sqrt (real_of_int a * real_of_int a + real_of_int b * real_of_int b)"

section \<open>The module state\<close>

text \<open>
  The module-level variables of \<^verbatim>\<open>main.py\<close> that the kernels and the reset read or
  write, in one record.
  \<open>n_grid\<close> is \<open>n\<close>, \<open>x_field\<close> and \<open>v_field\<close> are the fields \<open>x\<close> and \<open>v\<close> (shape
  \<open>(n, n)\<close>, read only at in-range indices). \<open>rng\<close> is the stream of values that
  future calls of \<open>ti.random()\<close> return.
\<close>

record sim =
  n_grid :: nat
  gravity :: rvec
  spring_Y :: real
  dashpot_damping :: real
  drag_damping :: real
  ball_radius :: real
  ball_center :: rvec
  substeps :: int
  spring_offsets :: "idx list"
  x_field :: "idx \<Rightarrow> vec"
  v_field :: "idx \<Rightarrow> vec"
  indices :: "nat list"
  colors :: "rvec list"
  vertices :: "vec list"
  rng :: "nat \<Rightarrow> real"

definition quad_size :: "sim \<Rightarrow> real" where
  "quad_size s = 1 / real (n_grid s)"

definition dt :: "sim \<Rightarrow> real" where
  "dt s = 0.04 / real (n_grid s)"

text \<open>\<open>int(1 / 60 // dt)\<close>, the start value of \<open>substeps\<close>.\<close>

definition default_substeps :: "sim \<Rightarrow> int" where
  "default_substeps s = \<lfloor>(1 / 60) / dt s\<rfloor>"

definition num_triangles :: "nat \<Rightarrow> nat" where
  "num_triangles n = (n - 1) * (n - 1) * 2"

text \<open>The index sets of the loops: \<open>ti.ndrange(m, m)\<close> and \<open>ti.grouped(x)\<close>, row-major.\<close>

definition ndrange :: "nat \<Rightarrow> nat \<Rightarrow> (nat \<times> nat) list" where
  "ndrange m k = List.product [0..<m] [0..<k]"

definition grid :: "nat \<Rightarrow> idx list" where
  "grid n = List.product (map int [0..<n]) (map int [0..<n])"

section \<open>Parameter reset and mass-point initialisation\<close>

text \<open>\<open>reset\<close>: the assignment to \<open>substeps\<close> has no \<open>global\<close> declaration, so it binds
  a local variable of the function; the two field writes reach the module state.\<close>

definition reset :: "sim \<Rightarrow> sim" where
  "reset s =
     (let substeps_local = \<lfloor>(1 / 60) / dt s\<rfloor>
      in s\<lparr>spring_Y := 1000, ball_radius := 0.3\<rparr>)"

text \<open>
  \<open>initialize_mass_points\<close>: \<open>random_offset\<close> takes two values of \<open>ti.random()\<close>
  once, before the loop; the loop body then overwrites \<open>x[i, j]\<close> and \<open>v[i, j]\<close>.
\<close>

definition mass_point :: "real \<times> real \<Rightarrow> idx \<Rightarrow> sim \<Rightarrow> sim" where
  "mass_point random_offset ij s =
     (case ij of (i, j) \<Rightarrow>
        s\<lparr>x_field := (x_field s)((i, j) :=
             (Val (real_of_int i * quad_size s - 0.5 + fst random_offset), Val 0.6,
              Val (real_of_int j * quad_size s - 0.5 + snd random_offset))),
          v_field := (v_field s)((i, j) := (Val 0, Val 0, Val 0))\<rparr>)"

definition initialize_mass_points :: "sim \<Rightarrow> sim" where
  "initialize_mass_points s =
     (let random_offset = ((rng s 0 - 0.5) * 0.1, (rng s 1 - 0.5) * 0.1);
          s1 = s\<lparr>rng := (\<lambda>k. rng s (k + 2))\<rparr>
      in fold (mass_point random_offset) (grid (n_grid s)) s1)"

section \<open>Grid topology and spring topology\<close>

text \<open>One iteration of the first loop of \<open>initialize_mesh_indices\<close>.\<close>

definition mesh_quad :: "nat \<Rightarrow> nat \<times> nat \<Rightarrow> nat list \<Rightarrow> nat list" where
  "mesh_quad n ij ind =
     (case ij of (i, j) \<Rightarrow>
        let quad_id = (i * (n - 1)) + j
        in ind[quad_id * 6 + 0 := i * n + j,
               quad_id * 6 + 1 := (i + 1) * n + j,
               quad_id * 6 + 2 := i * n + (j + 1),
               quad_id * 6 + 3 := (i + 1) * n + j + 1,
               quad_id * 6 + 4 := i * n + (j + 1),
               quad_id * 6 + 5 := (i + 1) * n + j])"

text \<open>One iteration of its second loop.\<close>

definition mesh_color :: "nat \<Rightarrow> nat \<times> nat \<Rightarrow> rvec list \<Rightarrow> rvec list" where
  "mesh_color n ij col =
     (case ij of (i, j) \<Rightarrow>
        if (i div 4 + j div 4) mod 2 = 0
        then col[i * n + j := (0.9, 0.9, 0.9)]
        else col[i * n + j := (0.1, 0.1, 0.1)])"

definition initialize_mesh_indices :: "sim \<Rightarrow> sim" where
  "initialize_mesh_indices s =
     (let n = n_grid s
      in s\<lparr>indices := fold (mesh_quad n) (ndrange (n - 1) (n - 1)) (indices s),
            colors := fold (mesh_color n) (ndrange n n) (colors s)\<rparr>)"

text \<open>The module-level construction of \<open>spring_offsets\<close> from \<open>bending_springs\<close>.\<close>

definition build_spring_offsets :: "bool \<Rightarrow> idx list" where
  "build_spring_offsets bending_springs =
     (if bending_springs
      then [(i, j). i \<leftarrow> [-1..1], j \<leftarrow> [-1..1], (i, j) \<noteq> (0, 0)]
      else [(i, j). i \<leftarrow> [-2..2], j \<leftarrow> [-2..2], (i, j) \<noteq> (0, 0) \<and> \<bar>i\<bar> + \<bar>j\<bar> \<le> 2])"

text \<open>
  The state after the module-level code has run: the declarations of lines 8 to 32 (fields
  are zero-initialised), the call of \<open>initialize_mesh_indices\<close>, and the construction of
  \<open>spring_offsets\<close>. The source fixes \<open>n = 128\<close> and \<open>bending_springs = False\<close>; both are
  parameters here, as is the random stream.
\<close>

definition module_init :: "nat \<Rightarrow> bool \<Rightarrow> (nat \<Rightarrow> real) \<Rightarrow> sim" where
  "module_init n bending_springs r =
     initialize_mesh_indices
       \<lparr>n_grid = n, gravity = (0, - 9.8, 0), spring_Y = 1000, dashpot_damping = 10000,
        drag_damping = 1, ball_radius = 0.3, ball_center = (0, 0, 0),
        substeps = \<lfloor>(1 / 60) / (0.04 / real n)\<rfloor>,
        spring_offsets = build_spring_offsets bending_springs,
        x_field = (\<lambda>i. (Val 0, Val 0, Val 0)), v_field = (\<lambda>i. (Val 0, Val 0, Val 0)),
        indices = replicate (num_triangles n * 3) 0,
        colors = replicate (n * n) (0, 0, 0),
        vertices = replicate (n * n) (Val 0, Val 0, Val 0),
        rng = r\<rparr>"

section \<open>The integration step\<close>

text \<open>
  Each top-level loop of the kernel \<open>substep\<close> is a fold of its body over the grid in
  row-major order; the body reads and writes the fields in place, as the source does, and
  one loop ends before the next begins. (The Taichi runtime may run the iterations of one
  loop in parallel. Only the second loop reads a field entry, \<open>v[j]\<close>, that another of
  its iterations writes; the sequential order is what the model fixes there.)
\<close>

definition in_bounds :: "nat \<Rightarrow> idx \<Rightarrow> bool" where
  "in_bounds n j = (0 \<le> fst j \<and> fst j < int n \<and> 0 \<le> snd j \<and> snd j < int n)"

text \<open>First loop: \<open>v[i] += gravity * dt\<close>.\<close>

definition gravity_body :: "idx \<Rightarrow> sim \<Rightarrow> sim" where
  "gravity_body i s =
     s\<lparr>v_field := (v_field s)(i := vadd (v_field s i) (vmuls (vval (gravity s)) (Val (dt s))))\<rparr>"

text \<open>Second loop, the body of the unrolled inner loop over \<open>spring_offsets\<close>.\<close>

definition spring_force :: "sim \<Rightarrow> idx \<Rightarrow> idx \<Rightarrow> vec \<Rightarrow> vec" where
  "spring_force s i spring_offset force =
     (let j = iadd i spring_offset
      in if in_bounds (n_grid s) j then
           let x_ij = vsub (x_field s i) (x_field s j);
               v_ij = vsub (v_field s i) (v_field s j);
               d = normalized x_ij;
               current_dist = vnorm x_ij;
               original_dist = Val (quad_size s * inorm (isub i j));
               force1 = vadd force
                 (vmuls (smulv (Val (- spring_Y s)) d)
                        (nsub (ndiv current_dist original_dist) (Val 1)));
               force2 = vadd force1
                 (vmuls (vmuls (smulv (nneg (vdot v_ij d)) d) (Val (dashpot_damping s)))
                        (Val (quad_size s)))
           in force2
         else force)"

definition spring_body :: "idx \<Rightarrow> sim \<Rightarrow> sim" where
  "spring_body i s =
     (let force = fold (spring_force s i) (spring_offsets s) (Val 0, Val 0, Val 0)
      in s\<lparr>v_field := (v_field s)(i := vadd (v_field s i) (vmuls force (Val (dt s))))\<rparr>)"

text \<open>Third loop: drag, the collision response, and the position update.\<close>

definition drag :: "idx \<Rightarrow> sim \<Rightarrow> sim" where
  "drag i s =
     s\<lparr>v_field := (v_field s)(i := vmuls (v_field s i) (Val (exp (- drag_damping s * dt s))))\<rparr>"

definition collision_response :: "idx \<Rightarrow> sim \<Rightarrow> sim" where
  "collision_response i s =
     (let offset_to_center = vsub (x_field s i) (vval (ball_center s))
      in if nle (vnorm offset_to_center) (Val (ball_radius s)) then
           let normal = normalized offset_to_center
           in s\<lparr>v_field := (v_field s)(i :=
                  vsub (v_field s i) (smulv (nmin (vdot (v_field s i) normal) (Val 0)) normal))\<rparr>
         else s)"

definition advance :: "idx \<Rightarrow> sim \<Rightarrow> sim" where
  "advance i s =
     s\<lparr>x_field := (x_field s)(i := vadd (x_field s i) (smulv (Val (dt s)) (v_field s i)))\<rparr>"

definition collide_body :: "idx \<Rightarrow> sim \<Rightarrow> sim" where
  "collide_body i s = advance i (collision_response i (drag i s))"

definition substep :: "sim \<Rightarrow> sim" where
  "substep s =
     (let s1 = fold gravity_body (grid (n_grid s)) s;
          s2 = fold spring_body (grid (n_grid s1)) s1;
          s3 = fold collide_body (grid (n_grid s2)) s2
      in s3)"

section \<open>Predicates and states used to state the claims\<close>

text \<open>The six entries that one iteration of the first mesh loop writes for quad \<open>(i, j)\<close>.\<close>

definition quad_entries :: "nat \<Rightarrow> nat \<Rightarrow> nat \<Rightarrow> nat list" where
  "quad_entries n i j =
     [i * n + j, (i + 1) * n + j, i * n + (j + 1), (i + 1) * n + j + 1, i * n + (j + 1),
      (i + 1) * n + j]"


fun finite_vec :: "vec \<Rightarrow> bool" where
  "finite_vec (Val a, Val b, Val c) = True"
| "finite_vec _ = False"

text \<open>Every grid point lies strictly outside the sphere.\<close>

definition all_outside :: "sim \<Rightarrow> bool" where
  "all_outside s =
     list_all (\<lambda>i. nlt (Val (ball_radius s)) (vnorm (vsub (x_field s i) (vval (ball_center s)))))
       (grid (n_grid s))"

text \<open>Every velocity is a number, no two connected in-bounds points coincide, and the
  dashpot term of every spring vanishes: \<open>dashpot_damping\<close> is zero, or the relative
  velocity of the pair is orthogonal to the spring.\<close>

definition springs_at_rest :: "sim \<Rightarrow> bool" where
  "springs_at_rest s =
     list_all (\<lambda>i. finite_vec (v_field s i) \<and>
        list_all (\<lambda>off. in_bounds (n_grid s) (iadd i off) \<longrightarrow>
            x_field s i \<noteq> x_field s (iadd i off) \<and>
            (dashpot_damping s = 0 \<or>
             vdot (vsub (v_field s i) (v_field s (iadd i off)))
                  (vsub (x_field s i) (x_field s (iadd i off))) = Val 0))
          (spring_offsets s))
       (grid (n_grid s))"

text \<open>A state with every point at \<open>(0, 0.2, 0)\<close>, inside the sphere of radius \<open>0.3\<close>
  around the origin, moving with velocity \<open>w\<close>.\<close>

definition demo_inside :: "rvec \<Rightarrow> sim" where
  "demo_inside w =
     (module_init 2 False (\<lambda>k. 0))
       \<lparr>x_field := (\<lambda>i. (Val 0, Val 0.2, Val 0)), v_field := (\<lambda>i. vval w)\<rparr>"

text \<open>The freshly initialised sheet (\<open>n = 128\<close>, zero jitter) with gravity and stiffness
  set to zero, at rest except for the point \<open>(0, 1)\<close>, which moves along the spring that
  connects it to \<open>(0, 0)\<close>.\<close>

definition dashpot_state :: sim where
  "dashpot_state =
     (initialize_mass_points (module_init 128 False (\<lambda>k. 1 / 2)))
       \<lparr>gravity := (0, 0, 0), spring_Y := 0,
        v_field := (\<lambda>i. if i = (0, 1) then (Val 0, Val 0, Val 1) else (Val 0, Val 0, Val 0))\<rparr>"

text \<open>A freshly initialised \<open>2 \<times> 2\<close> sheet with gravity and stiffness set to zero, all
  points moving with the same velocity.\<close>

definition rest_state :: sim where
  "rest_state =
     (initialize_mass_points (module_init 2 False (\<lambda>k. 1 / 2)))
       \<lparr>gravity := (0, 0, 0), spring_Y := 0, v_field := (\<lambda>i. (Val 1, Val 2, Val 3))\<rparr>"

section \<open>Loops over the grid\<close>

lemma fold_keeps:
  assumes "\<And>i s. g (f i s) = g s"
  shows "g (fold f ps s) = g s"
  using assms by (induction ps arbitrary: s) simp_all

lemma grid_iff: "(i, j) \<in> set (grid n) \<longleftrightarrow> 0 \<le> i \<and> i < int n \<and> 0 \<le> j \<and> j < int n"
proof -
  have "set (map int [0..<n]) = {k. 0 \<le> k \<and> k < int n}"
    by (auto simp: image_iff intro: nonneg_int_cases)
  then show ?thesis by (simp add: grid_def)
qed

lemma grid_in_bounds: "p \<in> set (grid n) \<longleftrightarrow> in_bounds n p"
  by (cases p) (simp add: grid_iff in_bounds_def)

lemma distinct_grid: "distinct (grid n)"
  by (simp add: grid_def distinct_product distinct_map inj_on_def)

lemma mass_point_quad: "quad_size (mass_point ro p s) = quad_size s"
  by (cases p) (simp add: mass_point_def quad_size_def)

lemma fold_mass_point_x:
  "x_field (fold (mass_point ro) ps s) p =
     (if p \<in> set ps
      then (Val (real_of_int (fst p) * quad_size s - 0.5 + fst ro), Val 0.6,
            Val (real_of_int (snd p) * quad_size s - 0.5 + snd ro))
      else x_field s p)"
proof (induction ps arbitrary: s)
  case Nil
  show ?case by simp
next
  case (Cons q ps)
  show ?case
    by (cases q) (auto simp: Cons.IH mass_point_quad, auto simp: mass_point_def)
qed

lemma fold_mass_point_v:
  "v_field (fold (mass_point ro) ps s) p =
     (if p \<in> set ps then (Val 0, Val 0, Val 0) else v_field s p)"
proof (induction ps arbitrary: s)
  case Nil
  show ?case by simp
next
  case (Cons q ps)
  show ?case
    by (cases q) (auto simp: Cons.IH, auto simp: mass_point_def)
qed

section \<open>The start state and the reset\<close>

lemma module_init_sel [simp]:
  "n_grid (module_init n b r) = n"
  "gravity (module_init n b r) = (0, - 9.8, 0)"
  "spring_Y (module_init n b r) = 1000"
  "dashpot_damping (module_init n b r) = 10000"
  "drag_damping (module_init n b r) = 1"
  "ball_radius (module_init n b r) = 0.3"
  "ball_center (module_init n b r) = (0, 0, 0)"
  "substeps (module_init n b r) = \<lfloor>(1 / 60) / (0.04 / real n)\<rfloor>"
  "spring_offsets (module_init n b r) = build_spring_offsets b"
  "x_field (module_init n b r) = (\<lambda>i. (Val 0, Val 0, Val 0))"
  "v_field (module_init n b r) = (\<lambda>i. (Val 0, Val 0, Val 0))"
  "rng (module_init n b r) = r"
  by (simp_all add: module_init_def initialize_mesh_indices_def Let_def)

lemma reset_fields:
  "spring_Y (reset s) = 1000" "ball_radius (reset s) = 0.3"
  "x_field (reset s) = x_field s" "v_field (reset s) = v_field s"
  "substeps (reset s) = substeps s"
  by (simp_all add: reset_def Let_def)

section \<open>What the loops of the step leave alone\<close>

lemma dt_upd [simp]:
  "dt (s\<lparr>v_field := vf\<rparr>) = dt s" "dt (s\<lparr>x_field := xf\<rparr>) = dt s"
  by (simp_all add: dt_def)

lemma quad_size_upd [simp]:
  "quad_size (s\<lparr>v_field := vf\<rparr>) = quad_size s" "quad_size (s\<lparr>x_field := xf\<rparr>) = quad_size s"
  by (simp_all add: quad_size_def)

lemma fold_gravity_shape:
  "fold gravity_body ps s = s\<lparr>v_field := v_field (fold gravity_body ps s)\<rparr>"
proof (induction ps arbitrary: s)
  case Nil
  show ?case by simp
next
  case (Cons p ps)
  have "fold gravity_body (p # ps) s
          = (gravity_body p s)\<lparr>v_field := v_field (fold gravity_body ps (gravity_body p s))\<rparr>"
    using Cons.IH [of "gravity_body p s"] by simp
  also have "\<dots> = s\<lparr>v_field := v_field (fold gravity_body (p # ps) s)\<rparr>"
    by (simp add: gravity_body_def)
  finally show ?case .
qed

lemma fold_spring_shape:
  "fold spring_body ps s = s\<lparr>v_field := v_field (fold spring_body ps s)\<rparr>"
proof (induction ps arbitrary: s)
  case Nil
  show ?case by simp
next
  case (Cons p ps)
  have "fold spring_body (p # ps) s
          = (spring_body p s)\<lparr>v_field := v_field (fold spring_body ps (spring_body p s))\<rparr>"
    using Cons.IH [of "spring_body p s"] by simp
  also have "\<dots> = s\<lparr>v_field := v_field (fold spring_body (p # ps) s)\<rparr>"
    by (simp add: spring_body_def Let_def)
  finally show ?case .
qed

lemma fold_collide_shape:
  "fold collide_body ps s
     = s\<lparr>x_field := x_field (fold collide_body ps s),
         v_field := v_field (fold collide_body ps s)\<rparr>"
proof (induction ps arbitrary: s)
  case Nil
  show ?case by simp
next
  case (Cons p ps)
  have "fold collide_body (p # ps) s
          = (collide_body p s)\<lparr>x_field := x_field (fold collide_body ps (collide_body p s)),
               v_field := v_field (fold collide_body ps (collide_body p s))\<rparr>"
    using Cons.IH [of "collide_body p s"] by simp
  also have "\<dots> = s\<lparr>x_field := x_field (fold collide_body (p # ps) s),
                     v_field := v_field (fold collide_body (p # ps) s)\<rparr>"
    by (simp add: collide_body_def advance_def collision_response_def drag_def Let_def)
  finally show ?case .
qed

lemma fold_gravity_n: "n_grid (fold gravity_body ps s) = n_grid s"
  by (subst fold_gravity_shape) simp

lemma fold_spring_n: "n_grid (fold spring_body ps s) = n_grid s"
  by (subst fold_spring_shape) simp

lemma fold_gravity_x: "x_field (fold gravity_body ps s) = x_field s"
  by (subst fold_gravity_shape) simp

lemma substep_shape:
  "substep s = s\<lparr>x_field := x_field (substep s), v_field := v_field (substep s)\<rparr>"
proof -
  let ?g = "grid (n_grid s)"
  let ?s1 = "fold gravity_body ?g s"
  let ?s2 = "fold spring_body ?g ?s1"
  let ?s3 = "fold collide_body ?g ?s2"
  have 0: "substep s = ?s3"
    by (simp add: substep_def Let_def fold_gravity_n fold_spring_n)
  have "?s3 = ?s2\<lparr>x_field := x_field ?s3, v_field := v_field ?s3\<rparr>"
    by (rule fold_collide_shape)
  also have "\<dots> = ?s1\<lparr>v_field := v_field ?s2\<rparr>\<lparr>x_field := x_field ?s3, v_field := v_field ?s3\<rparr>"
    by (subst fold_spring_shape) simp
  also have "\<dots> = s\<lparr>v_field := v_field ?s1\<rparr>\<lparr>v_field := v_field ?s2\<rparr>
                      \<lparr>x_field := x_field ?s3, v_field := v_field ?s3\<rparr>"
    by (subst fold_gravity_shape) simp
  finally show ?thesis
    unfolding 0 by simp
qed

lemma substep_unfold:
  "substep s =
     fold collide_body (grid (n_grid s))
       (fold spring_body (grid (n_grid s)) (fold gravity_body (grid (n_grid s)) s))"
  by (simp add: substep_def Let_def fold_gravity_n fold_spring_n)







section \<open>Spring offsets and negation\<close>

lemma int3: "{-1..1::int} = {-1, 0, 1}"
  by auto

lemma offsets_False: "build_spring_offsets False =
  [(-2,0),(-1,-1),(-1,0),(-1,1),(0,-2),(0,-1),(0,1),(0,2),(1,-1),(1,0),(1,1),(2,0)]"
  by code_simp

lemma offsets_True: "build_spring_offsets True =
  [(-1,-1),(-1,0),(-1,1),(0,-1),(0,1),(1,-1),(1,0),(1,1)]"
  by code_simp




lemma nneg_nneg [simp]: "nneg (nneg a) = a"
  by (cases a) simp_all











section \<open>The index buffer\<close>

lemma mesh_quad_length [simp]: "length (mesh_quad n p ind) = length ind"
  by (cases p) (simp add: mesh_quad_def Let_def)

lemma fold_mesh_quad_length [simp]: "length (fold (mesh_quad n) ps ind) = length ind"
  by (induction ps arbitrary: ind) simp_all

lemma six_update_nth:
  fixes ind :: "'a list"
  assumes "k < length ind"
  shows "ind[q * 6 + 0 := e0, q * 6 + 1 := e1, q * 6 + 2 := e2, q * 6 + 3 := e3,
             q * 6 + 4 := e4, q * 6 + 5 := e5] ! k =
           (if k div 6 = q then [e0, e1, e2, e3, e4, e5] ! (k mod 6) else ind ! k)"
proof (cases "k div 6 = q")
  case False
  then have "k \<noteq> q * 6 + r" if "r < 6" for r
    using that by auto
  from this [of 0] this [of 1] this [of 2] this [of 3] this [of 4] this [of 5] False
  show ?thesis by simp
next
  case True
  have k: "k = q * 6 + k mod 6" using True div_mult_mod_eq [of k 6] by simp
  have "k mod 6 < 6" by simp
  then consider "k mod 6 = 0" | "k mod 6 = 1" | "k mod 6 = 2" | "k mod 6 = 3" | "k mod 6 = 4" | "k mod 6 = 5"
    by linarith
  then show ?thesis
  proof cases
    case 1
    with k have "k = q * 6" by simp
    with assms True 1 show ?thesis by simp
  next
    case 2
    with k have "k = q * 6 + 1" by simp
    with assms True 2 show ?thesis by simp
  next
    case 3
    with k have "k = q * 6 + 2" by simp
    with assms True 3 show ?thesis by simp
  next
    case 4
    with k have "k = q * 6 + 3" by simp
    with assms True 4 show ?thesis by simp
  next
    case 5
    with k have "k = q * 6 + 4" by simp
    with assms True 5 show ?thesis by simp
  next
    case 6
    with k have "k = q * 6 + 5" by simp
    with assms True 6 show ?thesis by simp
  qed
qed

lemma mesh_quad_nth:
  assumes "k < length ind"
  shows "mesh_quad n (i, j) ind ! k =
           (if k div 6 = i * (n - 1) + j then quad_entries n i j ! (k mod 6) else ind ! k)"
  unfolding mesh_quad_def quad_entries_def Let_def prod.case
  using assms by (rule six_update_nth)

lemma quad_id_div_mod:
  fixes i j m :: nat
  assumes "j < m"
  shows "(i * m + j) div m = i" "(i * m + j) mod m = j"
  using assms by simp_all

lemma fold_mesh_quad_nth:
  assumes "k < length ind" "\<forall>p \<in> set ps. snd p < n - 1"
  shows "fold (mesh_quad n) ps ind ! k =
           (if \<exists>p \<in> set ps. fst p * (n - 1) + snd p = k div 6
            then quad_entries n (k div 6 div (n - 1)) (k div 6 mod (n - 1)) ! (k mod 6)
            else ind ! k)"
  using assms
proof (induction ps arbitrary: ind)
  case Nil
  then show ?case by simp
next
  case (Cons p ps)
  obtain i j where p: "p = (i, j)" by (cases p)
  have j: "j < n - 1" using Cons.prems(2) p by simp
  have step: "fold (mesh_quad n) (p # ps) ind ! k =
      (if \<exists>p \<in> set ps. fst p * (n - 1) + snd p = k div 6
            then quad_entries n (k div 6 div (n - 1)) (k div 6 mod (n - 1)) ! (k mod 6)
            else mesh_quad n p ind ! k)"
    using Cons.prems Cons.IH [of "mesh_quad n p ind"] by simp
  show ?case
  proof (cases "i * (n - 1) + j = k div 6")
    case True
    have "k div 6 div (n - 1) = i" "k div 6 mod (n - 1) = j"
      using quad_id_div_mod [OF j, of i] unfolding True by simp_all
    with True show ?thesis
      unfolding step using Cons.prems(1) by (simp add: p mesh_quad_nth)
  next
    case False
    then show ?thesis
      unfolding step using Cons.prems(1) by (simp add: p mesh_quad_nth)
  qed
qed

lemma ndrange_iff: "(i, j) \<in> set (ndrange m k) \<longleftrightarrow> i < m \<and> j < k"
  by (simp add: ndrange_def)

lemma indices_module_init:
  "indices (module_init n b r) =
     fold (mesh_quad n) (ndrange (n - 1) (n - 1)) (replicate (num_triangles n * 3) 0)"
  by (simp add: module_init_def initialize_mesh_indices_def Let_def)

lemma quad_id_less:
  fixes i j m :: nat
  assumes "i < m" "j < m"
  shows "i * m + j < m * m"
proof -
  have "i * m + j < i * m + m" using assms by simp
  also have "\<dots> = (i + 1) * m" by simp
  also have "\<dots> \<le> m * m" using assms by (intro mult_right_mono) simp_all
  finally show ?thesis .
qed

lemma indices_nth:
  assumes "i < n - 1" "j < n - 1" "r < 6"
  shows "indices (module_init n b r0) ! ((i * (n - 1) + j) * 6 + r) = quad_entries n i j ! r"
proof -
  define q where "q = i * (n - 1) + j"
  have q: "q < (n - 1) * (n - 1)"
    unfolding q_def using assms(1,2) by (rule quad_id_less)
  then have len: "q * 6 + r < num_triangles n * 3"
    using assms(3) by (simp add: num_triangles_def)
  have d: "(q * 6 + r) div 6 = q" "(q * 6 + r) mod 6 = r" using assms(3) by simp_all
  have ij: "q div (n - 1) = i" "q mod (n - 1) = j"
    unfolding q_def using quad_id_div_mod [OF assms(2), of i] by simp_all
  have mem: "(i, j) \<in> set (ndrange (n - 1) (n - 1))"
    using assms by (simp add: ndrange_iff)
  have "fst (i, j) * (n - 1) + snd (i, j) = q"
    unfolding q_def fst_conv snd_conv ..
  then have ex: "\<exists>p \<in> set (ndrange (n - 1) (n - 1)). fst p * (n - 1) + snd p = (q * 6 + r) div 6"
    unfolding d using mem by (rule bexI)
  have rng: "\<forall>p \<in> set (ndrange (n - 1) (n - 1)). snd p < n - 1"
    by (auto simp: ndrange_iff)
  have "fold (mesh_quad n) (ndrange (n - 1) (n - 1)) (replicate (num_triangles n * 3) 0) ! (q * 6 + r)
        = quad_entries n ((q * 6 + r) div 6 div (n - 1)) ((q * 6 + r) div 6 mod (n - 1)) ! ((q * 6 + r) mod 6)"
    using len ex rng by (subst fold_mesh_quad_nth) simp_all
  then have "fold (mesh_quad n) (ndrange (n - 1) (n - 1)) (replicate (num_triangles n * 3) 0) ! (q * 6 + r)
        = quad_entries n i j ! r"
    unfolding d ij .
  then show ?thesis
    unfolding indices_module_init q_def .
qed

lemma quad_entries_bound:
  assumes "i < n - 1" "j < n - 1" "r < 6"
  shows "quad_entries n i j ! r < n * n"
proof -
  have a: "(i + 1) * n \<le> (n - 1) * n" using assms by (intro mult_right_mono) simp_all
  have b: "j + 1 \<le> n - 1" using assms by simp
  have "(i + 1) * n + j + 1 = (i + 1) * n + (j + 1)" by simp
  also have "\<dots> \<le> (n - 1) * n + (n - 1)" by (rule add_mono [OF a b])
  also have "\<dots> < n * n" using assms by (cases n) simp_all
  finally have top: "(i + 1) * n + j + 1 < n * n" .
  have "r = 0 \<or> r = 1 \<or> r = 2 \<or> r = 3 \<or> r = 4 \<or> r = 5" using assms by linarith
  then show ?thesis
    using top by (auto simp: quad_entries_def)
qed

lemma indices_length: "length (indices (module_init n b r)) = 6 * (n - 1)\<^sup>2"
  by (simp add: indices_module_init num_triangles_def power2_eq_square)

lemma indices_bound:
  assumes "k < 6 * (n - 1)\<^sup>2"
  shows "indices (module_init n b r) ! k < n * n"
proof -
  define q where "q = k div 6"
  have q: "q < (n - 1) * (n - 1)" using assms by (simp add: q_def power2_eq_square)
  then have pos: "0 < n - 1" by (cases "n - 1") simp_all
  have i: "q div (n - 1) < n - 1" using q pos by (simp add: less_mult_imp_div_less)
  have j: "q mod (n - 1) < n - 1" using pos by simp
  have 1: "q div (n - 1) * (n - 1) + q mod (n - 1) = q" by (rule div_mult_mod_eq)
  have 2: "q * 6 + k mod 6 = k" by (simp add: q_def)
  have "indices (module_init n b r) ! ((q div (n - 1) * (n - 1) + q mod (n - 1)) * 6 + k mod 6)
          = quad_entries n (q div (n - 1)) (q mod (n - 1)) ! (k mod 6)"
    using i j by (intro indices_nth) simp_all
  then have "indices (module_init n b r) ! k = quad_entries n (q div (n - 1)) (q mod (n - 1)) ! (k mod 6)"
    unfolding 1 2 .
  then show ?thesis
    using quad_entries_bound [OF i j, of "k mod 6"] by simp
qed

section \<open>The collision response at one point\<close>

lemma proj_real:
  fixes k l o1 o2 o3 :: real
  assumes "l * l = o1 * o1 + o2 * o2 + o3 * o3" "l \<noteq> 0"
  shows "(k * (- o1)) * (1 / l * o1) + (k * (- o2)) * (1 / l * o2) + (k * (- o3)) * (1 / l * o3) = - (k * l)"
proof -
  have "(k * (- o1)) * (1 / l * o1) + (k * (- o2)) * (1 / l * o2) + (k * (- o3)) * (1 / l * o3)
      = - (k * (o1 * o1 + o2 * o2 + o3 * o3) / l)"
    using assms(2) by (simp add: field_simps)
  also have "\<dots> = - (k * (l * l) / l)" by (simp only: assms(1))
  also have "\<dots> = - (k * l)" using assms(2) by simp
  finally show ?thesis .
qed

lemma vnorm_Val:
  assumes "vnorm u = Val l"
  obtains o1 o2 o3 where "u = (Val o1, Val o2, Val o3)" "l = sqrt (o1 * o1 + o2 * o2 + o3 * o3)"
proof -
  obtain a b c where u: "u = (a, b, c)" by (cases u)
  show ?thesis
    using assms that unfolding u vnorm_def
    by (cases a; cases b; cases c) (auto split: if_splits)
qed

lemma collision_toward_center:
  assumes inside: "nlt (vnorm (vsub (x_field s i) (vval (ball_center s)))) (Val (ball_radius s))"
    and k: "0 < k"
    and v: "v_field s i = smulv (Val k) (vsub (vval (ball_center s)) (x_field s i))"
    and away: "x_field s i \<noteq> vval (ball_center s)"
  shows "v_field (collision_response i s) i = (Val 0, Val 0, Val 0)"
proof -
  obtain c1 c2 c3 where c: "ball_center s = (c1, c2, c3)" by (cases "ball_center s")
  obtain l where l: "vnorm (vsub (x_field s i) (vval (ball_center s))) = Val l"
    using inside by (cases "vnorm (vsub (x_field s i) (vval (ball_center s)))") simp_all
  then obtain o1 o2 o3 where off: "vsub (x_field s i) (vval (ball_center s)) = (Val o1, Val o2, Val o3)"
    and lo: "l = sqrt (o1 * o1 + o2 * o2 + o3 * o3)"
    by (rule vnorm_Val)
  obtain a1 a2 a3 where x: "x_field s i = (a1, a2, a3)" by (cases "x_field s i")
  from off obtain p1 p2 p3 where p: "x_field s i = (Val p1, Val p2, Val p3)"
    unfolding x c by (cases a1; cases a2; cases a3) simp_all
  have o: "o1 = p1 - c1" "o2 = p2 - c2" "o3 = p3 - c3"
    using off unfolding p c by simp_all
  have nz: "o1 * o1 + o2 * o2 + o3 * o3 \<noteq> 0"
  proof
    assume "o1 * o1 + o2 * o2 + o3 * o3 = 0"
    then have "o1 = 0 \<and> o2 = 0 \<and> o3 = 0"
      by (smt (verit) mult_eq_0_iff not_sum_squares_lt_zero sum_squares_eq_zero_iff zero_le_square)
    with away show False unfolding p c o by simp
  qed
  have pos: "0 \<le> o1 * o1 + o2 * o2 + o3 * o3" by simp
  have spos: "0 < o1 * o1 + o2 * o2 + o3 * o3" using nz pos by linarith
  have lpos: "0 < l" unfolding lo using spos by (rule real_sqrt_gt_zero)
  have l0: "l \<noteq> 0" using lpos by simp
  have ll: "l * l = o1 * o1 + o2 * o2 + o3 * o3"
    unfolding lo using pos by simp
  have le: "nle (Val l) (Val (ball_radius s))" using inside unfolding l by simp
  have vv: "v_field s i = (Val (k * (- o1)), Val (k * (- o2)), Val (k * (- o3)))"
    unfolding v p c o by simp
  have dot: "(k * (- o1)) * (1 / l * o1) + (k * (- o2)) * (1 / l * o2) + (k * (- o3)) * (1 / l * o3) = - (k * l)"
    using ll l0 by (rule proj_real)
  have "0 < k * l" using k lpos by (rule mult_pos_pos)
  then have neg: "\<not> 0 < - (k * l)" by simp
  have fin: "k * (- o1) - (- (k * l)) * (1 / l * o1) = 0" "k * (- o2) - (- (k * l)) * (1 / l * o2) = 0"
     "k * (- o3) - (- (k * l)) * (1 / l * o3) = 0"
    using l0 by (simp_all add: field_simps)
  have l': "vnorm (Val o1, Val o2, Val o3) = Val l" using l unfolding off .
  show ?thesis
    using le l0
    apply (simp only: collision_response_def Let_def off normalized_def l')
    apply (simp only: vv smulv.simps ndiv.simps nmul.simps vdot.simps nadd.simps dot nmin.simps
          neg if_False vsub.simps nsub.simps fin if_True sim.simps fun_upd_same)
    apply simp
    done
qed

lemma vdot_Val:
  assumes "vdot u w = Val a"
  obtains u1 u2 u3 w1 w2 w3 where "u = (Val u1, Val u2, Val u3)" "w = (Val w1, Val w2, Val w3)"
proof -
  obtain a1 a2 a3 where u: "u = (a1, a2, a3)" by (cases u)
  obtain b1 b2 b3 where w: "w = (b1, b2, b3)" by (cases w)
  show ?thesis
    using assms that unfolding u w
    by (cases a1; cases a2; cases a3; cases b1; cases b2; cases b3) simp_all
qed

lemma collision_moving_away:
  assumes inside: "nle (vnorm (vsub (x_field s i) (vval (ball_center s)))) (Val (ball_radius s))"
    and away: "nle (Val 0) (vdot (v_field s i) (normalized (vsub (x_field s i) (vval (ball_center s)))))"
  shows "v_field (collision_response i s) i = v_field s i"
proof -
  let ?normal = "normalized (vsub (x_field s i) (vval (ball_center s)))"
  obtain a where a: "vdot (v_field s i) ?normal = Val a"
    using away by (cases "vdot (v_field s i) ?normal") simp_all
  then obtain u1 u2 u3 w1 w2 w3 where u: "v_field s i = (Val u1, Val u2, Val u3)"
    and w: "?normal = (Val w1, Val w2, Val w3)"
    by (rule vdot_Val)
  have a0: "0 \<le> u1 * w1 + u2 * w2 + u3 * w3" using away unfolding u w by simp
  show ?thesis
    using inside a0
    by (simp add: collision_response_def Let_def w u)
qed

lemma sqrt_25th: "sqrt (1 / 25) = 1 / 5"
  by (rule real_sqrt_unique) (simp_all add: power2_eq_square)

lemma initialize_mass_points_n [simp]: "n_grid (initialize_mass_points s) = n_grid s"
proof -
  have "\<And>ro ps s. n_grid (fold (mass_point ro) ps s) = n_grid s"
  proof -
    fix ro ps s show "n_grid (fold (mass_point ro) ps s) = n_grid s"
      by (induction ps arbitrary: s) (auto simp: mass_point_def split: prod.splits)
  qed
  then show ?thesis by (simp add: initialize_mass_points_def Let_def)
qed

section \<open>The loops at one point, and the propagation of NaN\<close>

lemma spring_body_other: "q \<noteq> p \<Longrightarrow> v_field (spring_body p s) q = v_field s q"
  by (simp add: spring_body_def Let_def)

lemma spring_body_consts:
  "n_grid (spring_body p s) = n_grid s" "spring_offsets (spring_body p s) = spring_offsets s"
  "x_field (spring_body p s) = x_field s"
  by (simp_all add: spring_body_def Let_def)

lemma fold_spring_other: "q \<notin> set ps \<Longrightarrow> v_field (fold spring_body ps s) q = v_field s q"
  by (induction ps arbitrary: s) (simp_all add: spring_body_other)

lemma fold_gravity_offsets: "spring_offsets (fold gravity_body ps s) = spring_offsets s"
  by (subst fold_gravity_shape) simp

lemma collide_body_other:
  "q \<noteq> p \<Longrightarrow> v_field (collide_body p s) q = v_field s q"
  "q \<noteq> p \<Longrightarrow> x_field (collide_body p s) q = x_field s q"
  by (simp_all add: collide_body_def advance_def collision_response_def drag_def Let_def)

lemma fold_collide_other:
  "q \<notin> set ps \<Longrightarrow>
     v_field (fold collide_body ps s) q = v_field s q \<and>
     x_field (fold collide_body ps s) q = x_field s q"
  by (induction ps arbitrary: s) (simp_all add: collide_body_other)

lemma vadd_nan [simp]: "vadd (NaN, NaN, NaN) u = (NaN, NaN, NaN)" "vadd u (NaN, NaN, NaN) = (NaN, NaN, NaN)"
  by (cases u; simp)+

lemma vsub_nan [simp]: "vsub (NaN, NaN, NaN) u = (NaN, NaN, NaN)"
  by (cases u) simp

lemma vmuls_nan [simp]: "vmuls (NaN, NaN, NaN) c = (NaN, NaN, NaN)"
  by simp

lemma smulv_nan_scalar [simp]: "smulv NaN u = (NaN, NaN, NaN)"
  by (cases u) simp

lemma smulv_nan [simp]: "smulv c (NaN, NaN, NaN) = (NaN, NaN, NaN)"
  by (cases c) simp_all

lemma nmul_nan_right [simp]: "nmul c NaN = NaN"
  by (cases c) simp_all

lemma nadd_nan_right [simp]: "nadd c NaN = NaN"
  by (cases c) simp_all

lemma nsub_nan_right [simp]: "nsub c NaN = NaN"
  by (cases c) simp_all

lemma normalized_zero: "normalized (Val 0, Val 0, Val 0) = (NaN, NaN, NaN)"
  by (simp add: normalized_def vnorm_def)

lemma spring_force_degenerate:
  assumes "in_bounds (n_grid s) (iadd i off)"
    and "vsub (x_field s i) (x_field s (iadd i off)) = (Val 0, Val 0, Val 0)"
  shows "spring_force s i off force = (NaN, NaN, NaN)"
  using assms by (simp add: spring_force_def Let_def normalized_zero)

lemma spring_force_nan: "spring_force s i off (NaN, NaN, NaN) = (NaN, NaN, NaN)"
  by (simp add: spring_force_def Let_def)

lemma fold_spring_force_nan: "fold (spring_force s i) offs (NaN, NaN, NaN) = (NaN, NaN, NaN)"
  by (induction offs) (simp_all add: spring_force_nan)

lemma fold_spring_force_degenerate:
  assumes "off \<in> set offs" "in_bounds (n_grid s) (iadd i off)"
    and "vsub (x_field s i) (x_field s (iadd i off)) = (Val 0, Val 0, Val 0)"
  shows "fold (spring_force s i) offs force = (NaN, NaN, NaN)"
  using assms(1)
proof (induction offs arbitrary: force)
  case Nil
  then show ?case by simp
next
  case (Cons a offs)
  show ?case
  proof (cases "a = off")
    case True
    then show ?thesis
      by (simp add: spring_force_degenerate [OF assms(2,3)] fold_spring_force_nan)
  next
    case False
    with Cons.prems have "off \<in> set offs" by simp
    then show ?thesis by (simp add: Cons.IH)
  qed
qed

lemma spring_body_degenerate:
  assumes "off \<in> set (spring_offsets s)" "in_bounds (n_grid s) (iadd i off)"
    and "vsub (x_field s i) (x_field s (iadd i off)) = (Val 0, Val 0, Val 0)"
  shows "v_field (spring_body i s) i = (NaN, NaN, NaN)"
  by (simp add: spring_body_def Let_def fold_spring_force_degenerate [OF assms])

lemma fold_spring_degenerate:
  assumes "i \<in> set ps" "off \<in> set (spring_offsets s)" "in_bounds (n_grid s) (iadd i off)"
    and "vsub (x_field s i) (x_field s (iadd i off)) = (Val 0, Val 0, Val 0)"
  shows "v_field (fold spring_body ps s) i = (NaN, NaN, NaN)"
  using assms
proof (induction ps arbitrary: s)
  case Nil
  then show ?case by simp
next
  case (Cons p ps)
  show ?case
  proof (cases "i \<in> set ps")
    case True
    then show ?thesis
      using Cons.prems by (simp add: Cons.IH spring_body_consts)
  next
    case False
    with Cons.prems(1) have p: "p = i" by simp
    show ?thesis
      using False Cons.prems(2-4)
      by (simp add: p fold_spring_other spring_body_degenerate)
  qed
qed

lemma collide_body_nan:
  assumes "v_field s i = (NaN, NaN, NaN)"
  shows "v_field (collide_body i s) i = (NaN, NaN, NaN)" "x_field (collide_body i s) i = (NaN, NaN, NaN)"
  using assms
  by (simp_all add: collide_body_def advance_def collision_response_def drag_def Let_def)

lemma collide_body_keeps_nan:
  assumes "v_field s i = (NaN, NaN, NaN)"
  shows "v_field (collide_body p s) i = (NaN, NaN, NaN)"
  using assms collide_body_nan(1) [of s i] collide_body_other(1) [of i p s]
  by (cases "p = i") simp_all

lemma fold_collide_nan:
  assumes "i \<in> set ps" "v_field s i = (NaN, NaN, NaN)"
  shows "v_field (fold collide_body ps s) i = (NaN, NaN, NaN) \<and>
         x_field (fold collide_body ps s) i = (NaN, NaN, NaN)"
  using assms
proof (induction ps arbitrary: s)
  case Nil
  then show ?case by simp
next
  case (Cons p ps)
  have keep: "v_field (collide_body p s) i = (NaN, NaN, NaN)"
    using Cons.prems(2) by (rule collide_body_keeps_nan)
  show ?case
  proof (cases "i \<in> set ps")
    case True
    then show ?thesis using keep by (simp add: Cons.IH)
  next
    case False
    with Cons.prems(1) have p: "p = i" by simp
    show ?thesis
      using False Cons.prems(2) by (simp add: p fold_collide_other collide_body_nan)
  qed
qed

lemma substep_degenerate:
  assumes "in_bounds (n_grid s) i" "off \<in> set (spring_offsets s)"
    and "in_bounds (n_grid s) (iadd i off)"
    and "vsub (x_field s i) (x_field s (iadd i off)) = (Val 0, Val 0, Val 0)"
  shows "v_field (substep s) i = (NaN, NaN, NaN) \<and> x_field (substep s) i = (NaN, NaN, NaN)"
proof -
  let ?g = "grid (n_grid s)"
  let ?s1 = "fold gravity_body ?g s"
  let ?s2 = "fold spring_body ?g ?s1"
  have i: "i \<in> set ?g" using assms(1) by (simp add: grid_in_bounds)
  have "v_field ?s2 i = (NaN, NaN, NaN)"
    using i assms(2-4)
    by (intro fold_spring_degenerate [where off = off])
       (simp_all add: fold_gravity_n fold_gravity_x fold_gravity_offsets)
  then show ?thesis
    unfolding substep_unfold using i by (intro fold_collide_nan) simp_all
qed

section \<open>A sheet whose springs exert no force\<close>

lemma nadd_zero [simp]: "nadd a (Val 0) = a"
  by (cases a) simp_all

lemma vadd_zero [simp]: "vadd u (Val 0, Val 0, Val 0) = u"
  by (cases u) simp

lemma finite_vec_iff: "finite_vec u \<longleftrightarrow> (\<exists>a b c. u = (Val a, Val b, Val c))"
proof -
  obtain a b c where "u = (a, b, c)" by (cases u)
  then show ?thesis by (cases a; cases b; cases c) simp_all
qed

lemma gravity_body_zero: "gravity s = (0, 0, 0) \<Longrightarrow> gravity_body i s = s"
  by (simp add: gravity_body_def)

lemma fold_gravity_zero: "gravity s = (0, 0, 0) \<Longrightarrow> fold gravity_body ps s = s"
  by (induction ps) (simp_all add: gravity_body_zero)

lemma outside_finite:
  assumes "nlt (Val r) (vnorm (vsub u (vval c)))"
  shows "finite_vec u"
proof -
  obtain l where "vnorm (vsub u (vval c)) = Val l"
    using assms by (cases "vnorm (vsub u (vval c))") simp_all
  then obtain o1 o2 o3 where off: "vsub u (vval c) = (Val o1, Val o2, Val o3)"
    by (rule vnorm_Val)
  obtain a1 a2 a3 where u: "u = (a1, a2, a3)" by (cases u)
  obtain c1 c2 c3 where c: "c = (c1, c2, c3)" by (cases c)
  show ?thesis
    using off unfolding u c by (cases a1; cases a2; cases a3) simp_all
qed

lemma inorm_zero_iff: "inorm p = 0 \<longleftrightarrow> p = (0, 0)"
proof (cases p)
  case (Pair a b)
  have "real_of_int a * real_of_int a + real_of_int b * real_of_int b = 0 \<longleftrightarrow> a = 0 \<and> b = 0"
    by (simp add: sum_squares_eq_zero_iff)
  then show ?thesis by (simp add: Pair)
qed

lemma sum3_squares_zero:
  fixes a b c :: real
  shows "a * a + b * b + c * c = 0 \<longleftrightarrow> a = 0 \<and> b = 0 \<and> c = 0"
proof
  assume h: "a * a + b * b + c * c = 0"
  have "0 \<le> a * a" "0 \<le> b * b" "0 \<le> c * c" by simp_all
  with h have "a * a = 0" "b * b = 0" "c * c = 0" by linarith+
  then show "a = 0 \<and> b = 0 \<and> c = 0" by simp
qed simp

lemma spring_force_rest:
  assumes Y: "spring_Y s = 0"
    and xi: "x_field s i = (Val p1, Val p2, Val p3)"
    and xj: "x_field s (iadd i off) = (Val q1, Val q2, Val q3)"
    and vi: "v_field s i = (Val u1, Val u2, Val u3)"
    and vj: "v_field s (iadd i off) = (Val w1, Val w2, Val w3)"
    and ne: "x_field s i \<noteq> x_field s (iadd i off)"
    and rest: "dashpot_damping s = 0 \<or>
        vdot (vsub (v_field s i) (v_field s (iadd i off)))
             (vsub (x_field s i) (x_field s (iadd i off))) = Val 0"
  shows "spring_force s i off (Val 0, Val 0, Val 0) = (Val 0, Val 0, Val 0)"
proof (cases "in_bounds (n_grid s) (iadd i off)")
  case False
  then show ?thesis by (simp add: spring_force_def Let_def)
next
  case True
  then have n: "0 < n_grid s" by (auto simp: in_bounds_def)
  define o1 o2 o3 where "o1 = p1 - q1" and "o2 = p2 - q2" and "o3 = p3 - q3"
  define l where "l = sqrt (o1 * o1 + o2 * o2 + o3 * o3)"
  define od where "od = quad_size s * inorm (isub i (iadd i off))"
  have xij: "vsub (x_field s i) (x_field s (iadd i off)) = (Val o1, Val o2, Val o3)"
    by (simp add: xi xj o1_def o2_def o3_def)
  have vij: "vsub (v_field s i) (v_field s (iadd i off)) = (Val (u1 - w1), Val (u2 - w2), Val (u3 - w3))"
    by (simp add: vi vj)
  have "\<not> (o1 = 0 \<and> o2 = 0 \<and> o3 = 0)"
    using ne unfolding xi xj o1_def o2_def o3_def by simp
  then have S: "o1 * o1 + o2 * o2 + o3 * o3 \<noteq> 0" by (simp add: sum3_squares_zero)
  have Spos: "0 \<le> o1 * o1 + o2 * o2 + o3 * o3" by simp
  have l0: "l \<noteq> 0" unfolding l_def using S by simp
  have nn: "\<not> o1 * o1 + o2 * o2 + o3 * o3 < 0" using Spos by linarith
  have norm: "vnorm (Val o1, Val o2, Val o3) = Val l"
    by (simp add: vnorm_def l_def nn)
  have "i \<noteq> iadd i off" using ne by auto
  then have "isub i (iadd i off) \<noteq> (0, 0)" by (cases i; cases off) auto
  then have "inorm (isub i (iadd i off)) \<noteq> 0" by (simp add: inorm_zero_iff)
  moreover have "quad_size s \<noteq> 0" using n by (simp add: quad_size_def)
  ultimately have od0: "od \<noteq> 0" by (simp add: od_def)
  have d: "normalized (Val o1, Val o2, Val o3) = (Val (1 / l * o1), Val (1 / l * o2), Val (1 / l * o3))"
    using l0 by (simp add: normalized_def norm)
  have dash: "dashpot_damping s = 0 \<or>
      (u1 - w1) * (1 / l * o1) + (u2 - w2) * (1 / l * o2) + (u3 - w3) * (1 / l * o3) = 0"
  proof (cases "dashpot_damping s = 0")
    case False
    with rest have "(u1 - w1) * o1 + (u2 - w2) * o2 + (u3 - w3) * o3 = 0"
      by (simp add: xij vij)
    moreover have "(u1 - w1) * (1 / l * o1) + (u2 - w2) * (1 / l * o2) + (u3 - w3) * (1 / l * o3)
        = ((u1 - w1) * o1 + (u2 - w2) * o2 + (u3 - w3) * o3) / l"
      by (simp add: add_divide_distrib)
    ultimately show ?thesis by simp
  qed simp
  show ?thesis
    using True od0 dash
    by (auto simp add: spring_force_def Let_def xij vij d norm Y od_def [symmetric])
qed

lemma springs_at_rest_D:
  assumes "springs_at_rest s" "in_bounds (n_grid s) i"
  shows "finite_vec (v_field s i)"
    and "off \<in> set (spring_offsets s) \<Longrightarrow> in_bounds (n_grid s) (iadd i off) \<Longrightarrow>
         x_field s i \<noteq> x_field s (iadd i off) \<and>
         (dashpot_damping s = 0 \<or>
          vdot (vsub (v_field s i) (v_field s (iadd i off)))
               (vsub (x_field s i) (x_field s (iadd i off))) = Val 0)"
  using assms by (auto simp: springs_at_rest_def list_all_iff grid_in_bounds)

lemma all_outside_D:
  assumes "all_outside s" "in_bounds (n_grid s) i"
  shows "nlt (Val (ball_radius s)) (vnorm (vsub (x_field s i) (vval (ball_center s))))"
  using assms by (auto simp: all_outside_def list_all_iff grid_in_bounds)

lemma spring_force_rest_offset:
  assumes Y: "spring_Y s = 0" and out: "all_outside s" and rest: "springs_at_rest s"
    and i: "in_bounds (n_grid s) i" and off: "off \<in> set (spring_offsets s)"
  shows "spring_force s i off (Val 0, Val 0, Val 0) = (Val 0, Val 0, Val 0)"
proof (cases "in_bounds (n_grid s) (iadd i off)")
  case False
  then show ?thesis by (simp add: spring_force_def Let_def)
next
  case True
  obtain p1 p2 p3 where xi: "x_field s i = (Val p1, Val p2, Val p3)"
    using outside_finite [OF all_outside_D [OF out i]] by (auto simp: finite_vec_iff)
  obtain q1 q2 q3 where xj: "x_field s (iadd i off) = (Val q1, Val q2, Val q3)"
    using outside_finite [OF all_outside_D [OF out True]] by (auto simp: finite_vec_iff)
  obtain u1 u2 u3 where vi: "v_field s i = (Val u1, Val u2, Val u3)"
    using springs_at_rest_D(1) [OF rest i] by (auto simp: finite_vec_iff)
  obtain w1 w2 w3 where vj: "v_field s (iadd i off) = (Val w1, Val w2, Val w3)"
    using springs_at_rest_D(1) [OF rest True] by (auto simp: finite_vec_iff)
  from springs_at_rest_D(2) [OF rest i off True]
  show ?thesis
    by (intro spring_force_rest [OF Y xi xj vi vj]) simp_all
qed

lemma fold_spring_force_rest:
  assumes "\<forall>off \<in> set offs. spring_force s i off (Val 0, Val 0, Val 0) = (Val 0, Val 0, Val 0)"
  shows "fold (spring_force s i) offs (Val 0, Val 0, Val 0) = (Val 0, Val 0, Val 0)"
  using assms by (induction offs) simp_all

lemma spring_body_rest:
  assumes "spring_Y s = 0" "all_outside s" "springs_at_rest s" "in_bounds (n_grid s) i"
  shows "spring_body i s = s"
proof -
  have "fold (spring_force s i) (spring_offsets s) (Val 0, Val 0, Val 0) = (Val 0, Val 0, Val 0)"
    using assms by (intro fold_spring_force_rest ballI spring_force_rest_offset)
  then show ?thesis
    by (simp add: spring_body_def Let_def)
qed

lemma fold_spring_rest:
  assumes "spring_Y s = 0" "all_outside s" "springs_at_rest s"
    and "\<forall>i \<in> set ps. in_bounds (n_grid s) i"
  shows "fold spring_body ps s = s"
  using assms(4)
  by (induction ps) (simp_all add: spring_body_rest [OF assms(1-3)])

lemma collide_body_local:
  assumes "p \<noteq> i"
  shows "v_field (collide_body i (collide_body p s)) i = v_field (collide_body i s) i"
    and "x_field (collide_body i (collide_body p s)) i = x_field (collide_body i s) i"
  using assms
  by (simp_all add: collide_body_def advance_def collision_response_def drag_def Let_def)

lemma fold_collide_at:
  assumes "distinct ps" "i \<in> set ps"
  shows "v_field (fold collide_body ps s) i = v_field (collide_body i s) i \<and>
         x_field (fold collide_body ps s) i = x_field (collide_body i s) i"
  using assms
proof (induction ps arbitrary: s)
  case Nil
  then show ?case by simp
next
  case (Cons p ps)
  show ?case
  proof (cases "p = i")
    case True
    with Cons.prems(1) have "i \<notin> set ps" by simp
    then show ?thesis
      using fold_collide_other [of i ps "collide_body i s"] by (simp add: True)
  next
    case False
    with Cons.prems have "distinct ps" "i \<in> set ps" by simp_all
    from Cons.IH [OF this, of "collide_body p s"] show ?thesis
      by (simp add: collide_body_local [OF False])
  qed
qed

lemma collide_body_outside:
  assumes "nlt (Val (ball_radius s)) (vnorm (vsub (x_field s i) (vval (ball_center s))))"
  shows "v_field (collide_body i s) i = vmuls (v_field s i) (Val (exp (- drag_damping s * dt s)))"
    and "x_field (collide_body i s) i =
           vadd (x_field s i) (smulv (Val (dt s)) (vmuls (v_field s i) (Val (exp (- drag_damping s * dt s)))))"
proof -
  have "\<not> nle (vnorm (vsub (x_field s i) (vval (ball_center s)))) (Val (ball_radius s))"
    using assms by (cases "vnorm (vsub (x_field s i) (vval (ball_center s)))") simp_all
  then show "v_field (collide_body i s) i = vmuls (v_field s i) (Val (exp (- drag_damping s * dt s)))"
    and "x_field (collide_body i s) i =
           vadd (x_field s i) (smulv (Val (dt s)) (vmuls (v_field s i) (Val (exp (- drag_damping s * dt s)))))"
    by (simp_all add: collide_body_def advance_def collision_response_def drag_def Let_def)
qed

lemma substep_rest:
  assumes "spring_Y s = 0" "gravity s = (0, 0, 0)" "all_outside s" "springs_at_rest s"
  shows "substep s = fold collide_body (grid (n_grid s)) s"
proof -
  have "fold spring_body (grid (n_grid s)) s = s"
    using assms by (intro fold_spring_rest) (simp_all add: grid_in_bounds)
  then show ?thesis
    by (simp add: substep_unfold fold_gravity_zero [OF assms(2)])
qed

section \<open>The concrete states\<close>

lemma initialize_mass_points_x:
  "x_field (initialize_mass_points s) p =
     (if in_bounds (n_grid s) p
      then (Val (real_of_int (fst p) * quad_size s - 0.5 + (rng s 0 - 0.5) * 0.1), Val 0.6,
            Val (real_of_int (snd p) * quad_size s - 0.5 + (rng s 1 - 0.5) * 0.1))
      else x_field s p)"
  by (simp add: initialize_mass_points_def Let_def fold_mass_point_x grid_in_bounds quad_size_def)

lemma initialize_mass_points_v:
  "v_field (initialize_mass_points s) p =
     (if in_bounds (n_grid s) p then (Val 0, Val 0, Val 0) else v_field s p)"
  by (simp add: initialize_mass_points_def Let_def fold_mass_point_v grid_in_bounds)

lemma fold_mass_point_shape:
  "fold (mass_point ro) ps s
     = s\<lparr>x_field := x_field (fold (mass_point ro) ps s),
         v_field := v_field (fold (mass_point ro) ps s)\<rparr>"
proof (induction ps arbitrary: s)
  case Nil
  show ?case by simp
next
  case (Cons p ps)
  have "fold (mass_point ro) (p # ps) s
          = (mass_point ro p s)\<lparr>x_field := x_field (fold (mass_point ro) ps (mass_point ro p s)),
               v_field := v_field (fold (mass_point ro) ps (mass_point ro p s))\<rparr>"
    using Cons.IH [of "mass_point ro p s"] by simp
  also have "\<dots> = s\<lparr>x_field := x_field (fold (mass_point ro) (p # ps) s),
                     v_field := v_field (fold (mass_point ro) (p # ps) s)\<rparr>"
    by (cases p) (simp add: mass_point_def)
  finally show ?case .
qed

lemma initialize_mass_points_shape:
  "initialize_mass_points s
     = s\<lparr>rng := (\<lambda>k. rng s (k + 2)),
         x_field := x_field (initialize_mass_points s),
         v_field := v_field (initialize_mass_points s)\<rparr>"
  unfolding initialize_mass_points_def Let_def
  by (subst fold_mass_point_shape) simp

lemma initialize_mass_points_consts [simp]:
  "gravity (initialize_mass_points s) = gravity s"
  "spring_Y (initialize_mass_points s) = spring_Y s"
  "dashpot_damping (initialize_mass_points s) = dashpot_damping s"
  "drag_damping (initialize_mass_points s) = drag_damping s"
  "ball_radius (initialize_mass_points s) = ball_radius s"
  "ball_center (initialize_mass_points s) = ball_center s"
  "spring_offsets (initialize_mass_points s) = spring_offsets s"
  by ((subst initialize_mass_points_shape, simp)+)

lemma sheet_outside:
  fixes a c :: real
  shows "nlt (Val 0.3) (vnorm (vsub (Val a, Val 0.6, Val c) (vval (0, 0, 0))))"
proof -
  have "(0.6::real)\<^sup>2 \<le> a * a + 0.6 * 0.6 + c * c"
    by (simp add: power2_eq_square)
  then have "0.6 \<le> sqrt (a * a + 0.6 * 0.6 + c * c)"
    by (rule real_le_rsqrt)
  then have "0.3 < sqrt (a * a + 0.6 * 0.6 + c * c)" by simp
  moreover have "\<not> a * a + 0.6 * 0.6 + c * c < 0"
    by (simp add: not_less add_nonneg_nonneg)
  ultimately show ?thesis
    by (simp add: vnorm_def)
qed

lemma dashpot_state_sel:
  "n_grid dashpot_state = 128" "gravity dashpot_state = (0, 0, 0)" "spring_Y dashpot_state = 0"
  "dashpot_damping dashpot_state = 10000" "drag_damping dashpot_state = 1"
  "ball_radius dashpot_state = 0.3" "ball_center dashpot_state = (0, 0, 0)"
  "spring_offsets dashpot_state = build_spring_offsets False"
  "v_field dashpot_state = (\<lambda>i. if i = (0, 1) then (Val 0, Val 0, Val 1) else (Val 0, Val 0, Val 0))"
  "quad_size dashpot_state = 1 / 128" "dt dashpot_state = 1 / 3200"
  by (simp_all add: dashpot_state_def quad_size_def dt_def)

lemma dashpot_state_x:
  "in_bounds 128 p \<Longrightarrow>
   x_field dashpot_state p = (Val (real_of_int (fst p) / 128 - 1 / 2), Val (3 / 5), Val (real_of_int (snd p) / 128 - 1 / 2))"
  by (simp add: dashpot_state_def initialize_mass_points_x quad_size_def)

lemma dashpot_state_outside: "all_outside dashpot_state"
  unfolding all_outside_def list_all_iff
proof
  fix p assume "p \<in> set (grid (n_grid dashpot_state))"
  then have "in_bounds 128 p" by (simp add: grid_in_bounds dashpot_state_sel)
  then show "nlt (Val (ball_radius dashpot_state))
          (vnorm (vsub (x_field dashpot_state p) (vval (ball_center dashpot_state))))"
    using sheet_outside [of "real_of_int (fst p) / 128 - 1 / 2" "real_of_int (snd p) / 128 - 1 / 2"]
    by (simp add: dashpot_state_x dashpot_state_sel)
qed

lemma dashpot_force:
  "fold (spring_force dashpot_state (0, 0)) (build_spring_offsets False) (Val 0, Val 0, Val 0)
     = (Val 0, Val 0, Val (625 / 8))"
  apply (simp add: offsets_False spring_force_def Let_def in_bounds_def dashpot_state_sel
      dashpot_state_x normalized_def vnorm_def)
  done

lemma grid_first: "0 < n \<Longrightarrow> \<exists>rest. grid n = (0, 0) # rest \<and> (0, 0) \<notin> set rest"
proof -
  assume "0 < n"
  then obtain m where n: "n = Suc m" by (cases n) simp_all
  define rest where "rest = map (Pair 0) (map int [1..<Suc m]) @
        List.product (map int [1..<Suc m]) (map int (0 # [1..<Suc m]))"
  have u: "[0..<Suc m] = 0 # [1..<Suc m]" by (simp add: upt_conv_Cons)
  have g: "grid n = (0, 0) # rest"
    unfolding grid_def n rest_def u by (simp del: upt_Suc)
  have "distinct ((0, 0) # rest)"
    using distinct_grid [of n] unfolding g .
  then have "(0, 0) \<notin> set rest" by simp
  with g show ?thesis by blast
qed

lemma fold_spring_first:
  assumes "0 < n"
  shows "v_field (fold spring_body (grid n) s) (0, 0) = v_field (spring_body (0, 0) s) (0, 0)"
proof -
  obtain rest where "grid n = (0, 0) # rest" "(0, 0) \<notin> set rest"
    using grid_first [OF assms] by blast
  then show ?thesis by (simp add: fold_spring_other)
qed

lemma dashpot_state_step:
  "v_field (substep dashpot_state) (0, 0) = (Val 0, Val 0, Val (25 / 1024 * exp (- (1 / 3200))))"
proof -
  let ?g = "grid (n_grid dashpot_state)"
  let ?s2 = "fold spring_body ?g dashpot_state"
  have s2: "?s2 = dashpot_state\<lparr>v_field := v_field ?s2\<rparr>"
    by (rule fold_spring_shape)
  have v2: "v_field ?s2 (0, 0) = (Val 0, Val 0, Val (25 / 1024))"
    by (simp add: dashpot_state_sel(1) fold_spring_first spring_body_def Let_def
        dashpot_state_sel(8-11) dashpot_force)
  have x2: "x_field ?s2 = x_field dashpot_state" by (subst s2) simp
  have c2: "ball_radius ?s2 = ball_radius dashpot_state" "ball_center ?s2 = ball_center dashpot_state"
    "drag_damping ?s2 = 1" "dt ?s2 = 1 / 3200"
    by ((subst s2, simp add: dashpot_state_sel)+)
  have i: "in_bounds (n_grid dashpot_state) (0, 0)"
    by (simp add: dashpot_state_sel in_bounds_def)
  then have mem: "(0, 0) \<in> set ?g" by (simp add: grid_in_bounds)
  have out: "nlt (Val (ball_radius ?s2)) (vnorm (vsub (x_field ?s2 (0, 0)) (vval (ball_center ?s2))))"
    unfolding x2 c2 using all_outside_D [OF dashpot_state_outside i] .
  have "v_field (substep dashpot_state) (0, 0) = v_field (fold collide_body ?g ?s2) (0, 0)"
    by (simp add: substep_unfold fold_gravity_zero dashpot_state_sel(2))
  also have "\<dots> = v_field (collide_body (0, 0) ?s2) (0, 0)"
    using fold_collide_at [OF distinct_grid mem, of ?s2] by simp
  also have "\<dots> = vmuls (v_field ?s2 (0, 0)) (Val (exp (- drag_damping ?s2 * dt ?s2)))"
    by (rule collide_body_outside(1) [OF out])
  also have "\<dots> = (Val 0, Val 0, Val (25 / 1024 * exp (- (1 / 3200))))"
    unfolding v2 c2 by simp
  finally show ?thesis .
qed

lemma rest_state_sel:
  "n_grid rest_state = 2" "gravity rest_state = (0, 0, 0)" "spring_Y rest_state = 0"
  "ball_radius rest_state = 0.3" "ball_center rest_state = (0, 0, 0)" "drag_damping rest_state = 1"
  "spring_offsets rest_state = build_spring_offsets False"
  "v_field rest_state = (\<lambda>i. (Val 1, Val 2, Val 3))"
  "dt rest_state = 1 / 50"
  by (simp_all add: rest_state_def dt_def)

lemma rest_state_x:
  "in_bounds 2 p \<Longrightarrow>
   x_field rest_state p = (Val (real_of_int (fst p) / 2 - 1 / 2), Val (3 / 5), Val (real_of_int (snd p) / 2 - 1 / 2))"
  by (simp add: rest_state_def initialize_mass_points_x quad_size_def)

lemma rest_state_outside: "all_outside rest_state"
  unfolding all_outside_def list_all_iff
proof
  fix p assume "p \<in> set (grid (n_grid rest_state))"
  then have "in_bounds 2 p" by (simp add: grid_in_bounds rest_state_sel)
  then show "nlt (Val (ball_radius rest_state))
          (vnorm (vsub (x_field rest_state p) (vval (ball_center rest_state))))"
    using sheet_outside [of "real_of_int (fst p) / 2 - 1 / 2" "real_of_int (snd p) / 2 - 1 / 2"]
    by (simp add: rest_state_x rest_state_sel)
qed

lemma rest_state_springs: "springs_at_rest rest_state"
  unfolding springs_at_rest_def list_all_iff
proof (intro ballI conjI impI)
  fix p assume "p \<in> set (grid (n_grid rest_state))"
  show "finite_vec (v_field rest_state p)" by (simp add: rest_state_sel)
next
  fix p off
  assume p: "p \<in> set (grid (n_grid rest_state))" and off: "off \<in> set (spring_offsets rest_state)"
    and j: "in_bounds (n_grid rest_state) (iadd p off)"
  have pb: "in_bounds 2 p" using p by (simp add: grid_in_bounds rest_state_sel)
  have jb: "in_bounds 2 (iadd p off)" using j by (simp add: rest_state_sel)
  have "off \<noteq> (0, 0)" using off by (auto simp: rest_state_sel offsets_False)
  then have "fst (iadd p off) \<noteq> fst p \<or> snd (iadd p off) \<noteq> snd p"
    by (cases p; cases off) auto
  then show "x_field rest_state p \<noteq> x_field rest_state (iadd p off)"
    by (auto simp: rest_state_x [OF pb] rest_state_x [OF jb])
  show "dashpot_damping rest_state = 0 \<or>
       vdot (vsub (v_field rest_state p) (v_field rest_state (iadd p off)))
        (vsub (x_field rest_state p) (x_field rest_state (iadd p off))) = Val 0"
    by (simp add: rest_state_sel rest_state_x [OF pb] rest_state_x [OF jb])
qed

section \<open>The claims\<close>

text \<open>
  Claim C1, as amended. The claim as stated fails: with \<open>spring_Y = 0\<close>, zero gravity and
  every point outside the sphere, the dashpot term of the second loop still acts on the
  velocities. It holds when, in addition, the springs exert no force
  (\<open>springs_at_rest\<close>): then one \<open>substep\<close> multiplies the velocity of every grid point
  by \<open>exp(-drag_damping * dt)\<close>, adds \<open>dt\<close> times the new velocity to its position, and
  changes no other entry of \<open>x\<close> and \<open>v\<close>.
\<close>

theorem substep_drag_only:
  assumes "spring_Y s = 0" "gravity s = (0, 0, 0)" "all_outside s" "springs_at_rest s"
  shows "(in_bounds (n_grid s) i \<longrightarrow>
            v_field (substep s) i = vmuls (v_field s i) (Val (exp (- drag_damping s * dt s))) \<and>
            x_field (substep s) i = vadd (x_field s i) (smulv (Val (dt s)) (v_field (substep s) i))) \<and>
         (\<not> in_bounds (n_grid s) i \<longrightarrow>
            v_field (substep s) i = v_field s i \<and> x_field (substep s) i = x_field s i)"
proof (intro conjI impI)
  assume i: "in_bounds (n_grid s) i"
  then have mem: "i \<in> set (grid (n_grid s))" by (simp add: grid_in_bounds)
  note at = fold_collide_at [OF distinct_grid mem, of s]
  note out = collide_body_outside [OF all_outside_D [OF assms(3) i]]
  show v: "v_field (substep s) i = vmuls (v_field s i) (Val (exp (- drag_damping s * dt s)))"
    using at out by (simp add: substep_rest [OF assms])
  show "x_field (substep s) i = vadd (x_field s i) (smulv (Val (dt s)) (v_field (substep s) i))"
    unfolding v using at out by (simp add: substep_rest [OF assms])
next
  assume "\<not> in_bounds (n_grid s) i"
  then have "i \<notin> set (grid (n_grid s))" by (simp add: grid_in_bounds)
  from fold_collide_other [OF this, of s]
  show "v_field (substep s) i = v_field s i" "x_field (substep s) i = x_field s i"
    by (simp_all add: substep_rest [OF assms])
qed

text \<open>The amended statement at the point \<open>(1, 1)\<close> of \<open>rest_state\<close>, and at the index
  \<open>(2, 0)\<close> outside its grid.\<close>

theorem substep_drag_only_witness:
  "spring_Y rest_state = 0 \<and> gravity rest_state = (0, 0, 0) \<and>
   all_outside rest_state \<and> springs_at_rest rest_state \<and>
   in_bounds (n_grid rest_state) (1, 1) \<and>
   v_field (substep rest_state) (1, 1)
     = (Val (exp (- (1 / 50))), Val (2 * exp (- (1 / 50))), Val (3 * exp (- (1 / 50)))) \<and>
   x_field (substep rest_state) (1, 1)
     = (Val (1 / 50 * exp (- (1 / 50))), Val (3 / 5 + 1 / 50 * (2 * exp (- (1 / 50)))),
        Val (1 / 50 * (3 * exp (- (1 / 50))))) \<and>
   \<not> in_bounds (n_grid rest_state) (2, 0) \<and>
   v_field (substep rest_state) (2, 0) = v_field rest_state (2, 0) \<and>
   x_field (substep rest_state) (2, 0) = x_field rest_state (2, 0)"
proof -
  have Y: "spring_Y rest_state = 0" and g: "gravity rest_state = (0, 0, 0)"
    by (simp_all add: rest_state_sel)
  have i: "in_bounds (n_grid rest_state) (1, 1)" and b: "in_bounds 2 (1, 1)"
    by (simp_all add: rest_state_sel in_bounds_def)
  have o: "\<not> in_bounds (n_grid rest_state) (2, 0)"
    by (simp add: rest_state_sel in_bounds_def)
  note t = substep_drag_only [OF Y g rest_state_outside rest_state_springs]
  from t [of "(1, 1)"] i
  have v: "v_field (substep rest_state) (1, 1)
     = (Val (exp (- (1 / 50))), Val (2 * exp (- (1 / 50))), Val (3 * exp (- (1 / 50))))"
    by (simp add: rest_state_sel)
  from t [of "(1, 1)"] i
  have "x_field (substep rest_state) (1, 1)
     = vadd (x_field rest_state (1, 1)) (smulv (Val (dt rest_state)) (v_field (substep rest_state) (1, 1)))"
    by simp
  then have x: "x_field (substep rest_state) (1, 1)
     = (Val (1 / 50 * exp (- (1 / 50))), Val (3 / 5 + 1 / 50 * (2 * exp (- (1 / 50)))),
        Val (1 / 50 * (3 * exp (- (1 / 50)))))"
    unfolding v by (simp add: rest_state_sel rest_state_x [OF b])
  from t [of "(2, 0)"] o
  have u: "v_field (substep rest_state) (2, 0) = v_field rest_state (2, 0) \<and>
   x_field (substep rest_state) (2, 0) = x_field rest_state (2, 0)"
    by simp
  show ?thesis
    using Y g rest_state_outside rest_state_springs i v x o u by blast
qed

text \<open>
  The claim as stated is false at \<open>dashpot_state\<close>: stiffness and gravity are zero and
  every point is outside the sphere, the point \<open>(0, 0)\<close> is at rest, and after one
  \<open>substep\<close> it moves: the dashpot term of its spring to \<open>(0, 1)\<close> contributes the force
  \<open>(0, 0, 10000 * quad_size)\<close>.
\<close>

theorem substep_drag_only_counterexample:
  "spring_Y dashpot_state = 0 \<and> gravity dashpot_state = (0, 0, 0) \<and>
   all_outside dashpot_state \<and> in_bounds (n_grid dashpot_state) (0, 0) \<and>
   v_field dashpot_state (0, 0) = (Val 0, Val 0, Val 0) \<and>
   v_field (substep dashpot_state) (0, 0) = (Val 0, Val 0, Val (25 / 1024 * exp (- (1 / 3200)))) \<and>
   v_field (substep dashpot_state) (0, 0)
     \<noteq> vmuls (v_field dashpot_state (0, 0))
         (Val (exp (- drag_damping dashpot_state * dt dashpot_state)))"
proof -
  have "v_field dashpot_state (0, 0) = (Val 0, Val 0, Val 0)"
    by (simp add: dashpot_state_sel)
  moreover have "in_bounds (n_grid dashpot_state) (0, 0)"
    by (simp add: dashpot_state_sel in_bounds_def)
  ultimately show ?thesis
    using dashpot_state_outside
    by (simp add: dashpot_state_step dashpot_state_sel(2,3))
qed

text \<open>
  Claim C2. In the collision response, a point strictly inside the sphere whose velocity
  points directly at the centre (a positive multiple \<open>k\<close> of centre minus position, the
  position not being the centre itself) has normal velocity component exactly zero after
  the update; and a point for which the update fires (\<open>|offset| \<le> ball_radius\<close>) whose
  velocity has a non-negative dot product with the outward normal keeps its velocity.
\<close>

theorem collision_response_projects:
  "(nlt (vnorm (vsub (x_field s i) (vval (ball_center s)))) (Val (ball_radius s)) \<and>
    0 < k \<and> v_field s i = smulv (Val k) (vsub (vval (ball_center s)) (x_field s i)) \<and>
    x_field s i \<noteq> vval (ball_center s)
    \<longrightarrow> vdot (v_field (collision_response i s) i)
              (normalized (vsub (x_field s i) (vval (ball_center s)))) = Val 0) \<and>
   (nle (vnorm (vsub (x_field s i) (vval (ball_center s)))) (Val (ball_radius s)) \<and>
    nle (Val 0) (vdot (v_field s i) (normalized (vsub (x_field s i) (vval (ball_center s)))))
    \<longrightarrow> v_field (collision_response i s) i = v_field s i)"
proof (intro conjI impI)
  assume h: "nlt (vnorm (vsub (x_field s i) (vval (ball_center s)))) (Val (ball_radius s)) \<and>
    0 < k \<and> v_field s i = smulv (Val k) (vsub (vval (ball_center s)) (x_field s i)) \<and>
    x_field s i \<noteq> vval (ball_center s)"
  then have z: "v_field (collision_response i s) i = (Val 0, Val 0, Val 0)"
    by (intro collision_toward_center [of s i k]) simp_all
  obtain l where l: "vnorm (vsub (x_field s i) (vval (ball_center s))) = Val l"
    using h by (cases "vnorm (vsub (x_field s i) (vval (ball_center s)))") simp_all
  then obtain o1 o2 o3 where off: "vsub (x_field s i) (vval (ball_center s)) = (Val o1, Val o2, Val o3)"
    and lo: "l = sqrt (o1 * o1 + o2 * o2 + o3 * o3)"
    by (rule vnorm_Val)
  have l': "vnorm (Val o1, Val o2, Val o3) = Val l" using l unfolding off .
  have "l \<noteq> 0"
  proof
    assume "l = 0"
    then have "o1 * o1 + o2 * o2 + o3 * o3 = 0" unfolding lo by simp
    then have "o1 = 0 \<and> o2 = 0 \<and> o3 = 0"
      by (smt (verit) mult_eq_0_iff not_sum_squares_lt_zero sum_squares_eq_zero_iff zero_le_square)
    with off h show False
      by (cases "x_field s i"; cases "ball_center s") (auto elim!: nsub.elims)
  qed
  then show "vdot (v_field (collision_response i s) i)
              (normalized (vsub (x_field s i) (vval (ball_center s)))) = Val 0"
    unfolding z off normalized_def l' by simp
next
  assume "nle (vnorm (vsub (x_field s i) (vval (ball_center s)))) (Val (ball_radius s)) \<and>
    nle (Val 0) (vdot (v_field s i) (normalized (vsub (x_field s i) (vval (ball_center s)))))"
  then show "v_field (collision_response i s) i = v_field s i"
    by (intro collision_moving_away) simp_all
qed

text \<open>Both parts at \<open>demo_inside\<close>: velocity \<open>(0, -1, 0)\<close> points at the centre, velocity
  \<open>(0, 1, 0)\<close> points away from it.\<close>

theorem collision_response_projects_witness:
  "nlt (vnorm (vsub (x_field (demo_inside (0, - 1, 0)) (0, 0)) (vval (ball_center (demo_inside (0, - 1, 0))))))
       (Val (ball_radius (demo_inside (0, - 1, 0)))) \<and>
   v_field (demo_inside (0, - 1, 0)) (0, 0)
     = smulv (Val 5) (vsub (vval (ball_center (demo_inside (0, - 1, 0)))) (x_field (demo_inside (0, - 1, 0)) (0, 0))) \<and>
   x_field (demo_inside (0, - 1, 0)) (0, 0) \<noteq> vval (ball_center (demo_inside (0, - 1, 0))) \<and>
   vdot (v_field (collision_response (0, 0) (demo_inside (0, - 1, 0))) (0, 0))
        (normalized (vsub (x_field (demo_inside (0, - 1, 0)) (0, 0)) (vval (ball_center (demo_inside (0, - 1, 0))))))
     = Val 0 \<and>
   nle (vnorm (vsub (x_field (demo_inside (0, 1, 0)) (0, 0)) (vval (ball_center (demo_inside (0, 1, 0))))))
       (Val (ball_radius (demo_inside (0, 1, 0)))) \<and>
   nle (Val 0) (vdot (v_field (demo_inside (0, 1, 0)) (0, 0))
        (normalized (vsub (x_field (demo_inside (0, 1, 0)) (0, 0)) (vval (ball_center (demo_inside (0, 1, 0))))))) \<and>
   v_field (collision_response (0, 0) (demo_inside (0, 1, 0))) (0, 0) = (Val 0, Val 1, Val 0)"
proof -
  have n: "vnorm (Val 0, Val (1 / 5), Val 0) = Val (1 / 5)"
    by (simp add: vnorm_def sqrt_25th)
  have 1: "nlt (vnorm (vsub (x_field (demo_inside (0, - 1, 0)) (0, 0)) (vval (ball_center (demo_inside (0, - 1, 0))))))
       (Val (ball_radius (demo_inside (0, - 1, 0))))"
    by (simp add: demo_inside_def n)
  have 2: "v_field (demo_inside (0, - 1, 0)) (0, 0)
     = smulv (Val 5) (vsub (vval (ball_center (demo_inside (0, - 1, 0)))) (x_field (demo_inside (0, - 1, 0)) (0, 0)))"
    by (simp add: demo_inside_def)
  have 3: "x_field (demo_inside (0, - 1, 0)) (0, 0) \<noteq> vval (ball_center (demo_inside (0, - 1, 0)))"
    by (simp add: demo_inside_def)
  have 4: "nle (vnorm (vsub (x_field (demo_inside (0, 1, 0)) (0, 0)) (vval (ball_center (demo_inside (0, 1, 0))))))
       (Val (ball_radius (demo_inside (0, 1, 0))))"
    by (simp add: demo_inside_def n)
  have 5: "nle (Val 0) (vdot (v_field (demo_inside (0, 1, 0)) (0, 0))
        (normalized (vsub (x_field (demo_inside (0, 1, 0)) (0, 0)) (vval (ball_center (demo_inside (0, 1, 0)))))))"
    by (simp add: demo_inside_def normalized_def n)
  have 6: "v_field (demo_inside (0, 1, 0)) (0, 0) = (Val 0, Val 1, Val 0)"
    by (simp add: demo_inside_def)
  from collision_response_projects [of "demo_inside (0, - 1, 0)" "(0, 0)" 5] 1 2 3
  have a: "vdot (v_field (collision_response (0, 0) (demo_inside (0, - 1, 0))) (0, 0))
        (normalized (vsub (x_field (demo_inside (0, - 1, 0)) (0, 0)) (vval (ball_center (demo_inside (0, - 1, 0))))))
     = Val 0"
    by simp
  from collision_response_projects [of "demo_inside (0, 1, 0)" "(0, 0)" 1] 4 5
  have b: "v_field (collision_response (0, 0) (demo_inside (0, 1, 0))) (0, 0) = v_field (demo_inside (0, 1, 0)) (0, 0)"
    by blast
  show ?thesis
    using 1 2 3 4 5 a b unfolding 6 by blast
qed

text \<open>
  Claim C3, as amended. The source has no guard for coincident points: when \<open>x_ij\<close> is
  the zero vector for an offset of \<open>spring_offsets\<close> and an in-bounds neighbour,
  \<open>normalized\<close> divides by zero, the contribution of that spring is NaN in every
  component whatever the accumulated force was, and after the \<open>substep\<close> both the velocity
  and the position of the point are NaN in every component.
\<close>

theorem degenerate_spring_gives_nan:
  assumes "in_bounds (n_grid s) i" "off \<in> set (spring_offsets s)"
    and "in_bounds (n_grid s) (iadd i off)"
    and "vsub (x_field s i) (x_field s (iadd i off)) = (Val 0, Val 0, Val 0)"
  shows "spring_force s i off force = (NaN, NaN, NaN) \<and>
         v_field (substep s) i = (NaN, NaN, NaN) \<and> x_field (substep s) i = (NaN, NaN, NaN)"
proof -
  let ?g = "grid (n_grid s)"
  let ?s1 = "fold gravity_body ?g s"
  let ?s2 = "fold spring_body ?g ?s1"
  have contribution: "spring_force s i off force = (NaN, NaN, NaN)"
    using assms(3,4) by (rule spring_force_degenerate)
  have i: "i \<in> set ?g" using assms(1) by (simp add: grid_in_bounds)
  have first_loop: "n_grid ?s1 = n_grid s" "x_field ?s1 = x_field s"
    "spring_offsets ?s1 = spring_offsets s"
    by (rule fold_gravity_n, rule fold_gravity_x, rule fold_gravity_offsets)
  have second_loop: "v_field ?s2 i = (NaN, NaN, NaN)"
    using i assms(2-4)
    by (intro fold_spring_degenerate [where off = off]) (simp_all add: first_loop)
  have third_loop: "v_field (fold collide_body ?g ?s2) i = (NaN, NaN, NaN) \<and>
      x_field (fold collide_body ?g ?s2) i = (NaN, NaN, NaN)"
    using i second_loop by (rule fold_collide_nan)
  show ?thesis
    using contribution third_loop unfolding substep_unfold by simp
qed

text \<open>The amended statement in the \<open>2 \<times> 2\<close> start state, at the point \<open>(1, 1)\<close>.\<close>

theorem degenerate_spring_gives_nan_witness:
  "in_bounds (n_grid (module_init 2 False (\<lambda>k. 0))) (1, 1) \<and>
   (- 1, 0) \<in> set (spring_offsets (module_init 2 False (\<lambda>k. 0))) \<and>
   in_bounds (n_grid (module_init 2 False (\<lambda>k. 0))) (iadd (1, 1) (- 1, 0)) \<and>
   vsub (x_field (module_init 2 False (\<lambda>k. 0)) (1, 1))
        (x_field (module_init 2 False (\<lambda>k. 0)) (iadd (1, 1) (- 1, 0))) = (Val 0, Val 0, Val 0) \<and>
   spring_force (module_init 2 False (\<lambda>k. 0)) (1, 1) (- 1, 0) (Val 5, Val 6, Val 7) = (NaN, NaN, NaN) \<and>
   v_field (substep (module_init 2 False (\<lambda>k. 0))) (1, 1) = (NaN, NaN, NaN) \<and>
   x_field (substep (module_init 2 False (\<lambda>k. 0))) (1, 1) = (NaN, NaN, NaN)"
proof -
  let ?s = "module_init 2 False (\<lambda>k. 0)"
  have 1: "in_bounds (n_grid ?s) (1, 1)" by (simp add: in_bounds_def)
  have 2: "(- 1, 0) \<in> set (spring_offsets ?s)" by (simp add: offsets_False)
  have 3: "in_bounds (n_grid ?s) (iadd (1, 1) (- 1, 0))" by (simp add: in_bounds_def)
  have 4: "vsub (x_field ?s (1, 1)) (x_field ?s (iadd (1, 1) (- 1, 0))) = (Val 0, Val 0, Val 0)"
    by simp
  show ?thesis
    using 1 2 3 4 degenerate_spring_gives_nan [OF 1 2 3 4, of "(Val 5, Val 6, Val 7)"] by blast
qed

text \<open>
  The claim as stated (the degenerate spring contributes zero and no NaN reaches the
  velocity) is false in the start state of the program itself, where the field \<open>x\<close> is
  all zero until the first call of \<open>initialize_mass_points\<close>: the spring from \<open>(0, 0)\<close>
  to \<open>(0, 1)\<close> contributes NaN, and the velocity of \<open>(0, 0)\<close> is NaN after one step.
\<close>

theorem degenerate_spring_skipped_counterexample:
  "in_bounds (n_grid (module_init 128 False (\<lambda>k. 0))) (0, 0) \<and>
   (0, 1) \<in> set (spring_offsets (module_init 128 False (\<lambda>k. 0))) \<and>
   in_bounds (n_grid (module_init 128 False (\<lambda>k. 0))) (iadd (0, 0) (0, 1)) \<and>
   vsub (x_field (module_init 128 False (\<lambda>k. 0)) (0, 0))
        (x_field (module_init 128 False (\<lambda>k. 0)) (iadd (0, 0) (0, 1))) = (Val 0, Val 0, Val 0) \<and>
   spring_force (module_init 128 False (\<lambda>k. 0)) (0, 0) (0, 1) (Val 0, Val 0, Val 0) = (NaN, NaN, NaN) \<and>
   v_field (module_init 128 False (\<lambda>k. 0)) (0, 0) = (Val 0, Val 0, Val 0) \<and>
   v_field (substep (module_init 128 False (\<lambda>k. 0))) (0, 0) = (NaN, NaN, NaN)"
proof -
  let ?s = "module_init 128 False (\<lambda>k. 0)"
  have 1: "in_bounds (n_grid ?s) (0, 0)" by (simp add: in_bounds_def)
  have 2: "(0, 1) \<in> set (spring_offsets ?s)" by (simp add: offsets_False)
  have 3: "in_bounds (n_grid ?s) (iadd (0, 0) (0, 1))" by (simp add: in_bounds_def)
  have 4: "vsub (x_field ?s (0, 0)) (x_field ?s (iadd (0, 0) (0, 1))) = (Val 0, Val 0, Val 0)"
    by simp
  have 5: "v_field ?s (0, 0) = (Val 0, Val 0, Val 0)" by simp
  show ?thesis
    using 1 2 3 4 5 spring_force_degenerate [OF 3 4, of "(Val 0, Val 0, Val 0)"]
      substep_degenerate [OF 1 2 3 4] by blast
qed

text \<open>
  Claim C4: \<open>reset\<close> restores \<open>spring_Y\<close> to \<open>1e3\<close> and \<open>ball_radius\<close> to \<open>0.3\<close>, sets
  the global substep count back to \<open>int(1 / 60 // dt)\<close>, and leaves positions and velocities
  alone. The code at the start state with the substep slider moved to \<open>100\<close>: the two
  fields are restored, and the global \<open>substeps\<close> is still \<open>100\<close>, not the default \<open>53\<close>
  (the assignment in \<open>reset\<close> binds a local variable).
\<close>

theorem reset_keeps_stale_substeps:
  "spring_Y (reset ((module_init 128 False (\<lambda>k. 0))\<lparr>substeps := 100\<rparr>)) = 1000 \<and>
   ball_radius (reset ((module_init 128 False (\<lambda>k. 0))\<lparr>substeps := 100\<rparr>)) = 0.3 \<and>
   substeps (reset ((module_init 128 False (\<lambda>k. 0))\<lparr>substeps := 100\<rparr>)) = 100 \<and>
   default_substeps (reset ((module_init 128 False (\<lambda>k. 0))\<lparr>substeps := 100\<rparr>)) = 53"
  by (simp add: reset_def Let_def default_substeps_def dt_def)

text \<open>
  Claim C5. After \<open>initialize_mass_points\<close>, whatever the state before, every cell
  \<open>(i, j)\<close> of the grid has velocity zero, height \<open>0.6\<close>, and horizontal coordinates
  \<open>i * quad_size - 0.5\<close> and \<open>j * quad_size - 0.5\<close> shifted by the two components of one
  random offset, \<open>0.1\<close> times \<open>(random - 0.5)\<close>, the same for all cells.
\<close>

theorem initialize_mass_points_overwrites:
  assumes "in_bounds (n_grid s) (i, j)"
  shows "v_field (initialize_mass_points s) (i, j) = (Val 0, Val 0, Val 0) \<and>
         x_field (initialize_mass_points s) (i, j) =
           (Val (real_of_int i * quad_size s - 0.5 + (rng s 0 - 0.5) * 0.1),
            Val 0.6,
            Val (real_of_int j * quad_size s - 0.5 + (rng s 1 - 0.5) * 0.1))"
  using assms by (simp add: initialize_mass_points_x initialize_mass_points_v)

text \<open>The statement at cell \<open>(1, 1)\<close> of a \<open>2 \<times> 2\<close> grid, with random values \<open>1/4\<close>
  and \<open>1/2\<close>.\<close>

theorem initialize_mass_points_overwrites_witness:
  "in_bounds (n_grid (module_init 2 False (\<lambda>k. (real k + 1) / 4))) (1, 1) \<and>
   v_field (initialize_mass_points (module_init 2 False (\<lambda>k. (real k + 1) / 4))) (1, 1)
     = (Val 0, Val 0, Val 0) \<and>
   x_field (initialize_mass_points (module_init 2 False (\<lambda>k. (real k + 1) / 4))) (1, 1)
     = (Val (- 0.025), Val 0.6, Val 0)"
proof -
  have h: "in_bounds (n_grid (module_init 2 False (\<lambda>k. (real k + 1) / 4))) (1, 1)"
    by (simp add: in_bounds_def)
  show ?thesis
    using h initialize_mass_points_overwrites [OF h]
    by (simp add: quad_size_def)
qed

text \<open>
  Claim C6. Without \<open>bending_springs\<close> the construction yields exactly 12 distinct
  offsets, none of them \<open>(0, 0)\<close>, all of Manhattan norm at most 2; with
  \<open>bending_springs\<close> it yields exactly the 8 offsets of the \<open>3 \<times> 3\<close> neighbourhood
  without its centre.
\<close>

theorem spring_offsets_shape:
  "length (build_spring_offsets False) = 12 \<and>
   distinct (build_spring_offsets False) \<and>
   (0, 0) \<notin> set (build_spring_offsets False) \<and>
   list_all (\<lambda>(i, j). \<bar>i\<bar> + \<bar>j\<bar> \<le> 2) (build_spring_offsets False) \<and>
   length (build_spring_offsets True) = 8 \<and>
   distinct (build_spring_offsets True) \<and>
   set (build_spring_offsets True) = ({-1..1} \<times> {-1..1}) - {(0, 0)}"
proof (intro conjI)
  show "set (build_spring_offsets True) = ({-1..1} \<times> {-1..1}) - {(0, 0)}"
    unfolding offsets_True int3 by auto
qed (simp_all add: offsets_False offsets_True)

text \<open>
  Claim C7. For \<open>n \<ge> 2\<close> the index buffer after the module-level code has exactly
  \<open>6 * (n - 1)\<^sup>2\<close> entries, each below \<open>n * n\<close>, and the six entries of quad \<open>(i, j)\<close>
  are \<open>idx(i, j), idx(i + 1, j), idx(i, j + 1)\<close> followed by
  \<open>idx(i + 1, j + 1), idx(i, j + 1), idx(i + 1, j)\<close> with \<open>idx(i, j) = i * n + j\<close>: the two
  triangles share the edge \<open>(idx(i, j + 1), idx(i + 1, j))\<close>.
\<close>

theorem mesh_indices_triangles:
  assumes "2 \<le> n"
  shows "length (indices (module_init n b r)) = 6 * (n - 1)\<^sup>2 \<and>
    (\<forall>k < 6 * (n - 1)\<^sup>2. indices (module_init n b r) ! k < n * n) \<and>
    (\<forall>i j. i < n - 1 \<and> j < n - 1 \<longrightarrow>
       indices (module_init n b r) ! ((i * (n - 1) + j) * 6 + 0) = i * n + j \<and>
       indices (module_init n b r) ! ((i * (n - 1) + j) * 6 + 1) = (i + 1) * n + j \<and>
       indices (module_init n b r) ! ((i * (n - 1) + j) * 6 + 2) = i * n + (j + 1) \<and>
       indices (module_init n b r) ! ((i * (n - 1) + j) * 6 + 3) = (i + 1) * n + (j + 1) \<and>
       indices (module_init n b r) ! ((i * (n - 1) + j) * 6 + 4) = i * n + (j + 1) \<and>
       indices (module_init n b r) ! ((i * (n - 1) + j) * 6 + 5) = (i + 1) * n + j)"
proof (intro conjI allI impI)
  show "length (indices (module_init n b r)) = 6 * (n - 1)\<^sup>2"
    by (rule indices_length)
next
  fix k assume "k < 6 * (n - 1)\<^sup>2"
  then show "indices (module_init n b r) ! k < n * n"
    by (rule indices_bound)
next
  fix i j assume h: "i < n - 1 \<and> j < n - 1"
  then have i: "i < n - 1" and j: "j < n - 1" by simp_all
  show "indices (module_init n b r) ! ((i * (n - 1) + j) * 6 + 0) = i * n + j"
    using indices_nth [OF i j, of 0 b r] by (simp add: quad_entries_def)
  show "indices (module_init n b r) ! ((i * (n - 1) + j) * 6 + 1) = (i + 1) * n + j"
    using indices_nth [OF i j, of 1 b r] by (simp add: quad_entries_def)
  show "indices (module_init n b r) ! ((i * (n - 1) + j) * 6 + 2) = i * n + (j + 1)"
    using indices_nth [OF i j, of 2 b r] by (simp add: quad_entries_def)
  show "indices (module_init n b r) ! ((i * (n - 1) + j) * 6 + 3) = (i + 1) * n + (j + 1)"
    using indices_nth [OF i j, of 3 b r] by (simp add: quad_entries_def)
  show "indices (module_init n b r) ! ((i * (n - 1) + j) * 6 + 4) = i * n + (j + 1)"
    using indices_nth [OF i j, of 4 b r] by (simp add: quad_entries_def)
  show "indices (module_init n b r) ! ((i * (n - 1) + j) * 6 + 5) = (i + 1) * n + j"
    using indices_nth [OF i j, of 5 b r] by (simp add: quad_entries_def)
qed

text \<open>The statement for \<open>n = 3\<close> and the quad \<open>(1, 1)\<close>, whose entries are at positions
  18 to 23.\<close>

theorem mesh_indices_triangles_witness:
  "(2::nat) \<le> 3 \<and>
   length (indices (module_init 3 False (\<lambda>k. 0))) = 24 \<and>
   indices (module_init 3 False (\<lambda>k. 0)) ! 23 < 9 \<and>
   indices (module_init 3 False (\<lambda>k. 0)) ! 18 = 4 \<and>
   indices (module_init 3 False (\<lambda>k. 0)) ! 19 = 7 \<and>
   indices (module_init 3 False (\<lambda>k. 0)) ! 20 = 5 \<and>
   indices (module_init 3 False (\<lambda>k. 0)) ! 21 = 8 \<and>
   indices (module_init 3 False (\<lambda>k. 0)) ! 22 = 5 \<and>
   indices (module_init 3 False (\<lambda>k. 0)) ! 23 = 7"
proof -
  have h: "(2::nat) \<le> 3" by simp
  note t = mesh_indices_triangles [OF h, of False "\<lambda>k. 0"]
  from t have len: "length (indices (module_init 3 False (\<lambda>k. 0))) = 24" by simp
  from t have "\<forall>k<24. indices (module_init 3 False (\<lambda>k. 0)) ! k < 9" by simp
  then have bound: "indices (module_init 3 False (\<lambda>k. 0)) ! 23 < 9" by simp
  from t have "\<forall>i j. i < 2 \<and> j < 2 \<longrightarrow>
       indices (module_init 3 False (\<lambda>k. 0)) ! ((i * 2 + j) * 6 + 0) = i * 3 + j \<and>
       indices (module_init 3 False (\<lambda>k. 0)) ! ((i * 2 + j) * 6 + 1) = (i + 1) * 3 + j \<and>
       indices (module_init 3 False (\<lambda>k. 0)) ! ((i * 2 + j) * 6 + 2) = i * 3 + (j + 1) \<and>
       indices (module_init 3 False (\<lambda>k. 0)) ! ((i * 2 + j) * 6 + 3) = (i + 1) * 3 + (j + 1) \<and>
       indices (module_init 3 False (\<lambda>k. 0)) ! ((i * 2 + j) * 6 + 4) = i * 3 + (j + 1) \<and>
       indices (module_init 3 False (\<lambda>k. 0)) ! ((i * 2 + j) * 6 + 5) = (i + 1) * 3 + j"
    by simp
  from this [rule_format, of 1 1] have
    "indices (module_init 3 False (\<lambda>k. 0)) ! 18 = 4 \<and>
   indices (module_init 3 False (\<lambda>k. 0)) ! 19 = 7 \<and>
   indices (module_init 3 False (\<lambda>k. 0)) ! 20 = 5 \<and>
   indices (module_init 3 False (\<lambda>k. 0)) ! 21 = 8 \<and>
   indices (module_init 3 False (\<lambda>k. 0)) ! 22 = 5 \<and>
   indices (module_init 3 False (\<lambda>k. 0)) ! 23 = 7"
    by simp
  with h len bound show ?thesis by blast
qed



text \<open>
  Claim C9. \<open>substep\<close> changes only the fields \<open>x\<close> and \<open>v\<close>: the index, colour and
  vertex buffers, the sphere centre, \<open>ball_radius\<close>, \<open>spring_Y\<close> and the spring offsets
  are unchanged, and so is every other variable of the state.
\<close>

theorem substep_frame:
  "indices (substep s) = indices s \<and> colors (substep s) = colors s \<and>
   vertices (substep s) = vertices s \<and> ball_center (substep s) = ball_center s \<and>
   ball_radius (substep s) = ball_radius s \<and> spring_Y (substep s) = spring_Y s \<and>
   spring_offsets (substep s) = spring_offsets s \<and>
   substep s = s\<lparr>x_field := x_field (substep s), v_field := v_field (substep s)\<rparr>"
proof (intro conjI)
  show "substep s = s\<lparr>x_field := x_field (substep s), v_field := v_field (substep s)\<rparr>"
    by (rule substep_shape)
qed ((subst substep_shape, simp)+)



end
